theory Spec2Isabelle
  imports Main "HOL-Library.Word"
begin

chapter \<open>Definitions\<close>

section \<open>Tokens, type codes and data types of package parser\<close>

text \<open>
  Token kinds of package lex, as the parser and the lexer name them
  (\<^verbatim>\<open>lex.Operator\<close>, \<^verbatim>\<open>lex.Brace\<close>, ...).
\<close>

datatype tokid =
  lex_NA | lex_SemiColon | lex_Comma | lex_Brace | lex_Value | lex_Operator
  | lex_Var | lex_Const | lex_Type | lex_Return | lex_Name | lex_Id | lex_New

text \<open>A Go byte as a number.\<close>

abbreviation byte :: "char \<Rightarrow> nat" where
  "byte \<equiv> of_char"

text \<open>A token as the parser reads it: \<^verbatim>\<open>Id\<close>, \<^verbatim>\<open>Kind\<close>, \<^verbatim>\<open>Row\<close>, \<^verbatim>\<open>Column\<close>.\<close>

record token =
  tokId :: tokid
  Kind :: string
  Row :: int
  Column :: int

text \<open>The primitive type codes of package x.\<close>

datatype code =
  xVoid | xI8 | xI16 | xI32 | xI64 | xU8 | xU16 | xU32 | xU64 | xBool | xStr
  | xF32 | xF64 | xAny | xRune | xName | xFunc | xNil | xSize

text \<open>
  \<^verbatim>\<open>ast.DataType\<close> (\<^verbatim>\<open>ast.DataTypeAST\<close> in types.go): the token, the code, the
  lexeme \<^verbatim>\<open>Value\<close>, the multi-type flag and the tag. The tag is a Go interface value:
  nothing, a function (its parameters and return type; the body plays no part in a
  type) or the list of types of a multi-typed return.
\<close>

datatype DataType =
  DataType (Token: token) (Code: code) (Value: string) (MultiTyped: bool) (Tag: tag)
and tag = NoTag | FuncTag Func | TypesTag "DataType list"
and Func = Func (FuncId: string) (Params: "Parameter list") (RetType: DataType)
and Parameter = Parameter (ParamId: string) (ParamConst: bool) (ParamType: DataType)

text \<open>A diagnostic pushed by \<^verbatim>\<open>pusherrtok\<close>: the token it points at and the error key.\<close>

type_synonym log = "token \<times> string"

section \<open>Type predicates (parser/types.go)\<close>

definition typeIsPointer :: "DataType \<Rightarrow> bool" where
  "typeIsPointer t = (if Value t = [] then False else hd (Value t) = CHR ''*'')"

definition typeIsArray :: "DataType \<Rightarrow> bool" where
  "typeIsArray t = (if Value t = [] then False else hd (Value t) = CHR ''['')"

definition typeIsSingle :: "DataType \<Rightarrow> bool" where
  "typeIsSingle dt = (\<not> typeIsPointer dt \<and> \<not> typeIsArray dt \<and> Code dt \<noteq> xFunc)"

definition typeIsNilCompatible :: "DataType \<Rightarrow> bool" where
  "typeIsNilCompatible t = (Code t = xFunc \<or> typeIsPointer t)"

definition checkArrayCompatiblity :: "DataType \<Rightarrow> DataType \<Rightarrow> bool" where
  "checkArrayCompatiblity arrT t = (if Code t = xNil then True else Value arrT = Value t)"

text \<open>
  \<^verbatim>\<open>typesAreCompatible\<close>. The table \<^verbatim>\<open>x.TypesAreCompatible\<close> of package x is
  the parameter \<open>tc\<close>.
\<close>

definition typesAreCompatible ::
  "(code \<Rightarrow> code \<Rightarrow> bool \<Rightarrow> bool) \<Rightarrow> DataType \<Rightarrow> DataType \<Rightarrow> bool \<Rightarrow> bool" where
  "typesAreCompatible tc t1 t2 ignoreany =
     (if typeIsArray t1 \<or> typeIsArray t2 then
        (if typeIsArray t2 then checkArrayCompatiblity t2 t1
         else checkArrayCompatiblity t1 t2)
      else if typeIsNilCompatible t1 \<or> typeIsNilCompatible t2 then
        (Code t1 = xNil \<or> Code t2 = xNil)
      else tc (Code t1) (Code t2) ignoreany)"

text \<open>The type of the literal \<^verbatim>\<open>nil\<close> (\<^verbatim>\<open>valueEvaluator.nil\<close>): code Nil, empty lexeme.\<close>

definition tok0 :: token where
  "tok0 = \<lparr>tokId = lex_NA, Kind = [], Row = 0, Column = 0\<rparr>"

definition nilType :: DataType where
  "nilType = DataType tok0 xNil [] False NoTag"

section \<open>Operator selection (parser/parser.go, nextOperator)\<close>

text \<open>
  The five local variables \<^verbatim>\<open>precedence5\<close> ... \<^verbatim>\<open>precedence1\<close> of
  \<^verbatim>\<open>nextOperator\<close>, each an index or -1.
\<close>

record precs =
  precedence5 :: int
  precedence4 :: int
  precedence3 :: int
  precedence2 :: int
  precedence1 :: int

text \<open>The operator kinds of the three multi-way cases of the switch.\<close>

definition ops5 :: "string set" where
  "ops5 = {''*'', ''/'', ''%'', ''<<'', ''>>'', ''&''}"

definition ops4 :: "string set" where
  "ops4 = {''+'', ''-'', ''|'', ''^''}"

definition ops3 :: "string set" where
  "ops3 = {''=='', ''!='', ''<'', ''<='', ''>'', ''>=''}"

text \<open>One turn of the loop \<^verbatim>\<open>for i, part := range tokens\<close>.\<close>

definition nextOperator_step :: "int \<Rightarrow> token list \<Rightarrow> precs \<times> log list \<Rightarrow> precs \<times> log list" where
  "nextOperator_step i part st =
     (case st of (ps, logs) \<Rightarrow>
       if length part \<noteq> 1 then st
       else if tokId (hd part) \<noteq> lex_Operator then st
       else if Kind (hd part) \<in> ops5 then
         (ps\<lparr>precedence5 := i\<rparr>, logs)
       else if Kind (hd part) \<in> ops4 then
         (ps\<lparr>precedence4 := i\<rparr>, logs)
       else if Kind (hd part) \<in> ops3 then
         (ps\<lparr>precedence3 := i\<rparr>, logs)
       else if Kind (hd part) = ''&&'' then (ps\<lparr>precedence2 := i\<rparr>, logs)
       else if Kind (hd part) = ''||'' then (ps\<lparr>precedence1 := i\<rparr>, logs)
       else (ps, logs @ [(hd part, ''invalid_operator'')]))"

fun nextOperator_loop :: "int \<Rightarrow> token list list \<Rightarrow> precs \<times> log list \<Rightarrow> precs \<times> log list" where
  "nextOperator_loop i [] st = st"
| "nextOperator_loop i (part # rest) st =
     nextOperator_loop (i + 1) rest (nextOperator_step i part st)"

definition nextOperator_pick :: "precs \<Rightarrow> int" where
  "nextOperator_pick ps =
     (if precedence5 ps \<noteq> -1 then precedence5 ps
      else if precedence4 ps \<noteq> -1 then precedence4 ps
      else if precedence3 ps \<noteq> -1 then precedence3 ps
      else if precedence2 ps \<noteq> -1 then precedence2 ps
      else precedence1 ps)"

definition precs0 :: precs where
  "precs0 = \<lparr>precedence5 = -1, precedence4 = -1, precedence3 = -1,
             precedence2 = -1, precedence1 = -1\<rparr>"

text \<open>\<^verbatim>\<open>nextOperator\<close>: the index chosen and the diagnostics pushed on the way.\<close>

definition nextOperator :: "token list list \<Rightarrow> int \<times> log list" where
  "nextOperator tokens =
     (case nextOperator_loop 0 tokens (precs0, []) of
        (ps, logs) \<Rightarrow> (nextOperator_pick ps, logs))"

text \<open>
  The precedence level the switch of \<^verbatim>\<open>nextOperator\<close> gives a process: 5 (highest) to 1
  for a process that is one operator token of a known kind, 0 for every other process.
\<close>

definition level :: "token list \<Rightarrow> nat" where
  "level part =
     (if length part \<noteq> 1 then 0
      else if tokId (hd part) \<noteq> lex_Operator then 0
      else if Kind (hd part) \<in> ops5 then 5
      else if Kind (hd part) \<in> ops4 then 4
      else if Kind (hd part) \<in> ops3 then 3
      else if Kind (hd part) = ''&&'' then 2
      else if Kind (hd part) = ''||'' then 1
      else 0)"

text \<open>Example processes: the expression \<^verbatim>\<open>a + b + c\<close> as the AST builder splits it.\<close>

definition nameTok :: "string \<Rightarrow> token" where
  "nameTok s = \<lparr>tokId = lex_Id, Kind = s, Row = 1, Column = 1\<rparr>"

definition opTok :: "string \<Rightarrow> token" where
  "opTok s = \<lparr>tokId = lex_Operator, Kind = s, Row = 1, Column = 1\<rparr>"

definition a_plus_b_plus_c :: "token list list" where
  "a_plus_b_plus_c =
     [[nameTok ''a''], [opTok ''+''], [nameTok ''b''], [opTok ''+''], [nameTok ''c'']]"

text \<open>
  \<open>lastAt L v ps\<close>: the value \<open>v\<close> of the precedence variable of level \<open>L\<close> after the
  loop has run over \<open>ps\<close>: -1 when no process has level \<open>L\<close>, else the index of the last
  one that has.
\<close>

definition lastAt :: "nat \<Rightarrow> int \<Rightarrow> token list list \<Rightarrow> bool" where
  "lastAt L v ps =
     ((v = -1 \<and> (\<forall>k<length ps. level (ps ! k) \<noteq> L)) \<or>
      (\<exists>k<length ps. v = int k \<and> level (ps ! k) = L \<and>
         (\<forall>k'<length ps. k < k' \<longrightarrow> level (ps ! k') \<noteq> L)))"

text \<open>
  Example types: the slice type \<^verbatim>\<open>[]i32\<close>, and a primitive table that accepts no pair
  (so that whatever the examples accept, they accept by the branches of
  \<^verbatim>\<open>typesAreCompatible\<close> itself).
\<close>

definition i32Slice :: DataType where
  "i32Slice = DataType tok0 xI32 ''[]i32'' False NoTag"

definition tcNone :: "code \<Rightarrow> code \<Rightarrow> bool \<Rightarrow> bool" where
  "tcNone a b ignoreany = False"

section \<open>Values and parser state (parser/parser.go)\<close>

text \<open>Run-time failures of the Go code that the model keeps as results.\<close>

datatype panic = IndexOutOfRange | SliceBoundsOutOfRange | TypeAssertionFailed

text \<open>\<^verbatim>\<open>ast.Value\<close> and the parser's \<^verbatim>\<open>value\<close> struct.\<close>

record ast_Value =
  ValToken :: token
  Data :: string
  Type :: DataType

record pvalue =
  ast :: ast_Value
  "constant" :: bool
  volatile :: bool
  lvalue :: bool
  variadic :: bool

text \<open>The zero values Go gives \<^verbatim>\<open>var v value\<close>.\<close>

definition DataType0 :: DataType where
  "DataType0 = DataType tok0 xVoid [] False NoTag"

definition pvalue0 :: pvalue where
  "pvalue0 = \<lparr>ast = \<lparr>ValToken = tok0, Data = [], Type = DataType0\<rparr>,
              constant = False, volatile = False, lvalue = False, variadic = False\<rparr>"

text \<open>\<^verbatim>\<open>ast.Var\<close>, the parser's \<^verbatim>\<open>function\<close> struct (its \<^verbatim>\<open>Ast\<close> with the declaring token) and
  \<^verbatim>\<open>ast.Type\<close> (a type alias).\<close>

record Var =
  VarId :: string
  VarIdToken :: token
  VarType :: DataType
  VarConst :: bool
  VarVolatile :: bool

record parser_function =
  FuncToken :: token
  Ast :: Func

record TypeAlias =
  AliasId :: string
  AliasToken :: token
  AliasType :: DataType

text \<open>
  The fields of \<^verbatim>\<open>Parser\<close> the modelled functions read or write. \<^verbatim>\<open>Logs\<close> is
  \<^verbatim>\<open>p.PFI.Logs\<close>; \<^verbatim>\<open>iterCount\<close> is a Go \<^verbatim>\<open>int\<close> (64 bits, wrapping).
\<close>

record Parser =
  iterCount :: "64 word"
  Funcs :: "parser_function list"
  GlobalVars :: "Var list"
  Types :: "TypeAlias list"
  BlockVars :: "Var list"
  Logs :: "log list"

definition pusherrtok :: "token \<Rightarrow> string \<Rightarrow> Parser \<Rightarrow> Parser" where
  "pusherrtok tk key p = p\<lparr>Logs := Logs p @ [(tk, key)]\<rparr>"

text \<open>\<^verbatim>\<open>typeById\<close>, \<^verbatim>\<open>varById\<close>: the first entry of that name (block variables before
  globals). \<^verbatim>\<open>FuncById\<close> searches the built-in functions first; their table is the
  parameter \<open>builtinFuncs\<close>.\<close>

definition typeById :: "Parser \<Rightarrow> string \<Rightarrow> TypeAlias option" where
  "typeById p ident = find (\<lambda>t. AliasId t = ident) (Types p)"

definition varById :: "Parser \<Rightarrow> string \<Rightarrow> Var option" where
  "varById p ident =
     (case find (\<lambda>v. VarId v = ident) (BlockVars p) of
        Some v \<Rightarrow> Some v
      | None \<Rightarrow> find (\<lambda>v. VarId v = ident) (GlobalVars p))"

definition FuncById :: "parser_function list \<Rightarrow> Parser \<Rightarrow> string \<Rightarrow> parser_function option" where
  "FuncById builtinFuncs p ident =
     (case find (\<lambda>f. FuncId (Ast f) = ident) builtinFuncs of
        Some f \<Rightarrow> Some f
      | None \<Rightarrow> find (\<lambda>f. FuncId (Ast f) = ident) (Funcs p))"

section \<open>Literals and identifiers (parser/parser.go, valueEvaluator)\<close>

text \<open>
  \<^verbatim>\<open>valueEvaluator.num\<close>. \<^verbatim>\<open>xbits.CheckBitInt\<close> is the parameter \<open>CheckBitInt\<close>. The
  node appended to the expression builder is not modelled.
\<close>

definition num :: "(string \<Rightarrow> nat \<Rightarrow> bool) \<Rightarrow> token \<Rightarrow> pvalue" where
  "num CheckBitInt tk =
     (let v = pvalue0\<lparr>ast := (ast pvalue0)\<lparr>Data := Kind tk\<rparr>\<rparr> in
      if CHR ''.'' \<in> set (Kind tk) \<or> CHR ''e'' \<in> set (Kind tk) \<or> CHR ''E'' \<in> set (Kind tk)
      then v\<lparr>ast := (ast v)\<lparr>Type := DataType tok0 xF64 ''f64'' False NoTag\<rparr>\<rparr>
      else if CheckBitInt (Kind tk) 32
      then v\<lparr>ast := (ast v)\<lparr>Type := DataType tok0 xI32 ''i32'' False NoTag\<rparr>\<rparr>
      else v\<lparr>ast := (ast v)\<lparr>Type := DataType tok0 xI64 ''i64'' False NoTag\<rparr>\<rparr>)"

text \<open>
  \<^verbatim>\<open>valueEvaluator.id\<close>: the value, the \<^verbatim>\<open>ok\<close> flag and the parser with the diagnostic
  pushed. \<^verbatim>\<open>DataTypeString\<close> of package ast is the parameter.
\<close>

definition id_eval ::
  "parser_function list \<Rightarrow> (Func \<Rightarrow> string) \<Rightarrow> token \<Rightarrow> Parser \<Rightarrow> (pvalue \<times> bool) \<times> Parser" where
  "id_eval builtinFuncs DataTypeString tk p =
     (case varById p (Kind tk) of
        Some variable \<Rightarrow>
          ((pvalue0\<lparr>ast := \<lparr>ValToken = VarIdToken variable, Data = Kind tk,
                              Type = VarType variable\<rparr>,
                     constant := VarConst variable,
                     volatile := VarVolatile variable,
                     lvalue := True\<rparr>, True), p)
      | None \<Rightarrow>
         (case FuncById builtinFuncs p (Kind tk) of
            Some fun \<Rightarrow>
              ((pvalue0\<lparr>ast := \<lparr>ValToken = FuncToken fun, Data = Kind tk,
                    Type = DataType tok0 xFunc (DataTypeString (Ast fun)) False
                             (FuncTag (Ast fun))\<rparr>\<rparr>, True), p)
          | None \<Rightarrow> ((pvalue0, False), pusherrtok tk ''id_noexist'' p)))"

section \<open>String indexing (parser/parser.go, evalStrSelect)\<close>

text \<open>\<^verbatim>\<open>x.IsIntegerType\<close> of package x is the parameter.\<close>

definition evalStrSelect ::
  "(code \<Rightarrow> bool) \<Rightarrow> pvalue \<Rightarrow> pvalue \<Rightarrow> token \<Rightarrow> Parser \<Rightarrow> pvalue \<times> Parser" where
  "evalStrSelect IsIntegerType strv selectv errtok p =
     (let strv1 = strv\<lparr>lvalue := True\<rparr>;
          t = Type (ast strv1);
          strv2 = strv1\<lparr>ast := (ast strv1)\<lparr>Type :=
                    DataType (Token t) xRune (Value t) (MultiTyped t) (Tag t)\<rparr>\<rparr>
      in if \<not> typeIsSingle (Type (ast selectv)) \<or> \<not> IsIntegerType (Code (Type (ast selectv)))
         then (strv2, pusherrtok errtok ''notint_string_select'' p)
         else (strv2, p))"

section \<open>Return sites (parser/parser.go, retChecker)\<close>

text \<open>The fields of an \<^verbatim>\<open>assignChecker\<close> started as a goroutine.\<close>

record assignChecker =
  ac_constant :: bool
  ac_t :: DataType
  ac_v :: pvalue
  ac_ignoreAny :: bool
  ac_errtok :: token

definition typeIsVoidReturn :: "DataType \<Rightarrow> bool" where
  "typeIsVoidReturn t = (Code t = xVoid \<and> \<not> MultiTyped t)"

text \<open>
  \<^verbatim>\<open>retChecker.checkExprTypes\<close>, from the token of the \<^verbatim>\<open>ret\<close> statement, the return
  type of the function and \<^verbatim>\<open>rc.values\<close>. It yields the diagnostics it pushes and the
  assignment checks it starts, or the panic of \<^verbatim>\<open>models[0]\<close> on an empty list
  (\<^verbatim>\<open>pushval\<close> appends to \<^verbatim>\<open>models\<close> and \<^verbatim>\<open>values\<close> together) and of the type
  assertion on the tag. The expression model stored in the statement is not modelled.
\<close>

definition checkExprTypes ::
  "token \<Rightarrow> DataType \<Rightarrow> pvalue list \<Rightarrow> panic + (log list \<times> assignChecker list)" where
  "checkExprTypes retTok RetTy vals =
     (let valLength = length vals in
      if \<not> MultiTyped RetTy then
        (case vals of
           [] \<Rightarrow> Inl IndexOutOfRange
         | v0 # _ \<Rightarrow>
             Inr ((if valLength > 1 then [(retTok, ''overflow_return'')] else []),
                  [\<lparr>ac_constant = False, ac_t = RetTy, ac_v = v0, ac_ignoreAny = True,
                    ac_errtok = retTok\<rparr>]))
      else
        (case Tag RetTy of
           TypesTag types \<Rightarrow>
             Inr ((if valLength = 1 then [(retTok, ''missing_multi_return'')]
                   else if valLength > length types then [(retTok, ''overflow_return'')]
                   else []),
                  map (\<lambda>(t, v). \<lparr>ac_constant = False, ac_t = t, ac_v = v,
                                  ac_ignoreAny = True, ac_errtok = retTok\<rparr>)
                      (zip types vals))
         | _ \<Rightarrow> Inl TypeAssertionFailed))"

section \<open>Evaluator data (src/sema/eval.go)\<close>

text \<open>
  \<^verbatim>\<open>TypeKind\<close>: the kinds the evaluator tells apart (\<^verbatim>\<open>Prim()\<close>, \<^verbatim>\<open>Ptr()\<close>, \<^verbatim>\<open>Arr()\<close>,
  \<^verbatim>\<open>Slc()\<close>, \<^verbatim>\<open>Map()\<close>, ...). \<open>KNil\<close> is \<^verbatim>\<open>TypeKind{kind: nil}\<close>, the kind of the literal
  \<^verbatim>\<open>nil\<close>; a primitive kind carries its name.
\<close>

datatype TypeKind =
  KNil | Prim string | Ref TypeKind | Ptr TypeKind | Slc TypeKind | Arr TypeKind
  | Map TypeKind TypeKind | Enm string | Strct string | Trt string | FnIns string

text \<open>\<^verbatim>\<open>Data\<close>. A nil \<^verbatim>\<open>Kind\<close> pointer (void data) is \<open>None\<close>.\<close>

record Data =
  dKind :: "TypeKind option"
  Mutable :: bool
  Lvalue :: bool
  Variadiced :: bool
  Decl :: bool
  Constant :: bool

text \<open>The names of the primitive kinds (constants of package types).\<close>

definition TypeKind_U8 :: string where "TypeKind_U8 = ''u8''"
definition TypeKind_I32 :: string where "TypeKind_I32 = ''i32''"
definition TypeKind_F64 :: string where "TypeKind_F64 = ''f64''"
definition TypeKind_STR :: string where "TypeKind_STR = ''str''"
definition TypeKind_BOOL :: string where "TypeKind_BOOL = ''bool''"

text \<open>A literal's \<^verbatim>\<open>Data\<close>: constant, neither lvalue nor mutable nor a declaration.\<close>

definition lit_data :: "TypeKind \<Rightarrow> Data" where
  "lit_data k = \<lparr>dKind = Some k, Mutable = False, Lvalue = False, Variadiced = False,
                 Decl = False, Constant = True\<rparr>"

definition lit_nil :: Data where
  "lit_nil = lit_data KNil"

definition lit_str :: "string \<Rightarrow> Data" where
  "lit_str lit = lit_data (Prim TypeKind_STR)"

definition lit_bool :: "string \<Rightarrow> Data" where
  "lit_bool lit = lit_data (Prim TypeKind_BOOL)"

definition lit_float :: "string \<Rightarrow> Data" where
  "lit_float l = lit_data (Prim TypeKind_F64)"

text \<open>\<^verbatim>\<open>lit.Is_byte_lit\<close> (src/constant/lit/bytes.go): the literal without its quotes and
  whether it is a byte literal. A Go byte is at most 255, so the first case asks for
  the length only.\<close>

definition Is_byte_lit :: "string \<Rightarrow> string \<times> bool" where
  "Is_byte_lit kind =
     (if length kind < 3 then ([], False)
      else let k = butlast (tl kind) in
        (k, length k = 1
            \<or> (length k \<noteq> 1 \<and> k ! 0 = CHR 0x5C \<and> k ! 1 = CHR ''x'')
            \<or> (length k \<noteq> 1 \<and> k ! 0 = CHR 0x5C \<and> 48 \<le> byte (k ! 1) \<and> byte (k ! 1) \<le> 55)))"

definition lit_rune :: "string \<Rightarrow> Data" where
  "lit_rune l =
     (if snd (Is_byte_lit l) then lit_data (Prim TypeKind_U8)
      else lit_data (Prim TypeKind_I32))"

subsection \<open>Integer literals\<close>

text \<open>
  \<^verbatim>\<open>strconv.ParseUint(s, base, 64)\<close> and \<^verbatim>\<open>strconv.ParseInt(s, base, 64)\<close> of the Go
  library for an explicit base between 2 and 36: the value and the error. A syntax
  error gives 0, a range error the nearest bound.
\<close>

datatype NumError = ErrSyntax | ErrRange

definition digitVal :: "char \<Rightarrow> nat option" where
  "digitVal c =
     (if 48 \<le> byte c \<and> byte c \<le> 57 then Some (byte c - 48)
      else if 97 \<le> byte c \<and> byte c \<le> 122 then Some (byte c - 97 + 10)
      else if 65 \<le> byte c \<and> byte c \<le> 90 then Some (byte c - 65 + 10)
      else None)"

fun ParseUint_loop :: "nat \<Rightarrow> nat \<Rightarrow> string \<Rightarrow> nat \<times> NumError option" where
  "ParseUint_loop base n [] = (n, None)"
| "ParseUint_loop base n (c # cs) =
     (case digitVal c of
        None \<Rightarrow> (0, Some ErrSyntax)
      | Some d \<Rightarrow>
          if d \<ge> base then (0, Some ErrSyntax)
          else if n * base + d \<ge> 2 ^ 64 then (2 ^ 64 - 1, Some ErrRange)
          else ParseUint_loop base (n * base + d) cs)"

definition ParseUint :: "string \<Rightarrow> nat \<Rightarrow> nat \<times> NumError option" where
  "ParseUint s base = (if s = [] then (0, Some ErrSyntax) else ParseUint_loop base 0 s)"

definition ParseInt :: "string \<Rightarrow> nat \<Rightarrow> int \<times> NumError option" where
  "ParseInt s base =
     (if s = [] then (0, Some ErrSyntax)
      else
        let neg = (hd s = CHR ''-'');
            s1 = (if hd s = CHR ''+'' \<or> hd s = CHR ''-'' then tl s else s)
        in case ParseUint s1 base of
             (un, Some ErrSyntax) \<Rightarrow> (0, Some ErrSyntax)
           | (un, Some ErrRange) \<Rightarrow> ((if neg then - (2 ^ 63) else 2 ^ 63 - 1), Some ErrRange)
           | (un, None) \<Rightarrow>
               if \<not> neg \<and> un \<ge> 2 ^ 63 then (2 ^ 63 - 1, Some ErrRange)
               else if neg \<and> un > 2 ^ 63 then (- (2 ^ 63), Some ErrRange)
               else ((if neg then - int un else int un), None))"

text \<open>The value \<^verbatim>\<open>lit_int\<close> hands to \<^verbatim>\<open>kind_by_bitsize\<close>: an \<^verbatim>\<open>int64\<close> or a \<^verbatim>\<open>uint64\<close>.\<close>

datatype anyval = Int64 int | Uint64 nat

text \<open>
  \<^verbatim>\<open>kind_by_bitsize\<close>. The helpers of package types are parameters:
  \<open>int_kind\<close> is \<^verbatim>\<open>Int_from_bits(Bitsize_of_int(x))\<close>, \<open>uint_kind\<close> is
  \<^verbatim>\<open>Uint_from_bits(Bitsize_of_uint(x))\<close>.
\<close>

definition kind_by_bitsize :: "(int \<Rightarrow> string) \<Rightarrow> (nat \<Rightarrow> string) \<Rightarrow> anyval \<Rightarrow> string" where
  "kind_by_bitsize int_kind uint_kind expr =
     (case expr of Int64 x \<Rightarrow> int_kind x | Uint64 x \<Rightarrow> uint_kind x)"

text \<open>The base and digits \<^verbatim>\<open>lit_int\<close> reads off the literal; \<^verbatim>\<open>data[0]\<close> of an empty
  literal panics.\<close>

definition lit_int_base :: "string \<Rightarrow> panic + (string \<times> nat)" where
  "lit_int_base d =
     (if take 2 d = ''0x'' then Inr (drop 2 d, 16)
      else if take 2 d = ''0b'' then Inr (drop 2 d, 2)
      else if d = [] then Inl IndexOutOfRange
      else if hd d = CHR ''0'' \<and> length d > 1 then Inr (tl d, 8)
      else Inr (d, 10))"

definition lit_int_value :: "string \<Rightarrow> panic + anyval" where
  "lit_int_value l =
     (case lit_int_base l of
        Inl e \<Rightarrow> Inl e
      | Inr (d, base) \<Rightarrow>
          (case ParseInt d base of
             (temp_value, None) \<Rightarrow> Inr (Int64 temp_value)
           | (_, Some err) \<Rightarrow> Inr (Uint64 (fst (ParseUint d base)))))"

definition lit_int :: "(int \<Rightarrow> string) \<Rightarrow> (nat \<Rightarrow> string) \<Rightarrow> string \<Rightarrow> panic + Data" where
  "lit_int int_kind uint_kind l =
     (case lit_int_value l of
        Inl e \<Rightarrow> Inl e
      | Inr v \<Rightarrow> Inr (lit_data (Prim (kind_by_bitsize int_kind uint_kind v))))"

text \<open>\<^verbatim>\<open>lit_num\<close>; \<^verbatim>\<open>lex.Is_float\<close> is the parameter.\<close>

definition lit_num ::
  "(string \<Rightarrow> bool) \<Rightarrow> (int \<Rightarrow> string) \<Rightarrow> (nat \<Rightarrow> string) \<Rightarrow> string \<Rightarrow> panic + Data" where
  "lit_num Is_float int_kind uint_kind l =
     (if Is_float l then Inr (lit_float l) else lit_int int_kind uint_kind l)"

subsection \<open>Identifiers\<close>

text \<open>\<^verbatim>\<open>sema.Var\<close> (the fields \<^verbatim>\<open>eval_var\<close> reads; \<^verbatim>\<open>Kind.Kind\<close> is the resolved kind).\<close>

record sema_Var =
  sv_Ident :: string
  sv_Token :: token
  sv_Public :: bool
  sv_Constant :: bool
  sv_Mutable :: bool
  sv_Kind :: "TypeKind option"

text \<open>
  \<^verbatim>\<open>eval_var\<close>, \<^verbatim>\<open>eval_fn\<close>, \<^verbatim>\<open>eval_enum\<close>, \<^verbatim>\<open>eval_struct\<close>: \<open>None\<close> is the nil
  result; the second component holds the diagnostics pushed. The accessibility test
  \<^verbatim>\<open>is_accessible_define\<close> of the analyser is the parameter \<open>accessible\<close>.
\<close>

definition eval_var ::
  "(bool \<Rightarrow> token \<Rightarrow> bool) \<Rightarrow> sema_Var \<Rightarrow> token \<Rightarrow> Data option \<times> log list" where
  "eval_var accessible v error_token =
     (if \<not> accessible (sv_Public v) (sv_Token v)
      then (None, [(error_token, ''ident_not_exist'')])
      else (Some \<lparr>dKind = sv_Kind v, Mutable = sv_Mutable v, Lvalue = (\<not> sv_Constant v),
                   Variadiced = False, Decl = False, Constant = sv_Constant v\<rparr>, []))"

definition eval_fn ::
  "(bool \<Rightarrow> token \<Rightarrow> bool) \<Rightarrow> bool \<Rightarrow> token \<Rightarrow> string \<Rightarrow> token \<Rightarrow> Data option \<times> log list" where
  "eval_fn accessible public tk ins error_token =
     (if \<not> accessible public tk then (None, [(error_token, ''ident_not_exist'')])
      else (Some \<lparr>dKind = Some (FnIns ins), Mutable = False, Lvalue = False,
                   Variadiced = False, Decl = False, Constant = False\<rparr>, []))"

definition eval_enum ::
  "(bool \<Rightarrow> token \<Rightarrow> bool) \<Rightarrow> bool \<Rightarrow> token \<Rightarrow> string \<Rightarrow> token \<Rightarrow> Data option \<times> log list" where
  "eval_enum accessible public tk enm error_token =
     (if \<not> accessible public tk then (None, [(error_token, ''ident_not_exist'')])
      else (Some \<lparr>dKind = Some (Enm enm), Mutable = False, Lvalue = False,
                   Variadiced = False, Decl = True, Constant = False\<rparr>, []))"

definition eval_struct ::
  "(bool \<Rightarrow> token \<Rightarrow> bool) \<Rightarrow> bool \<Rightarrow> token \<Rightarrow> string \<Rightarrow> token \<Rightarrow> Data option \<times> log list" where
  "eval_struct accessible public tk s error_token =
     (if \<not> accessible public tk then (None, [(error_token, ''ident_not_exist'')])
      else (Some \<lparr>dKind = Some (Strct s), Mutable = False, Lvalue = False,
                   Variadiced = False, Decl = True, Constant = False\<rparr>, []))"

subsection \<open>Indexing a string\<close>

definition Prim_of :: "Data \<Rightarrow> string option" where
  "Prim_of d = (case dKind d of Some (Prim s) \<Rightarrow> Some s | _ \<Rightarrow> None)"

text \<open>\<^verbatim>\<open>check_data_for_integer_indexing\<close>; \<^verbatim>\<open>types.Is_int\<close> is the parameter. The case of
  negative constants is switched off in the source (\<^verbatim>\<open>d.Constant && false\<close>).\<close>

definition check_data_for_integer_indexing :: "(string \<Rightarrow> bool) \<Rightarrow> Data \<Rightarrow> string" where
  "check_data_for_integer_indexing Is_int d =
     (case Prim_of d of
        None \<Rightarrow> ''invalid_expr''
      | Some s \<Rightarrow> if \<not> Is_int s then ''invalid_expr'' else [])"

definition check_integer_indexing_by_data :: "(string \<Rightarrow> bool) \<Rightarrow> Data \<Rightarrow> token \<Rightarrow> log list" where
  "check_integer_indexing_by_data Is_int d tk =
     (let err_key = check_data_for_integer_indexing Is_int d in
      if err_key \<noteq> [] then [(tk, err_key)] else [])"

text \<open>
  \<^verbatim>\<open>indexing_str\<close>, from the data of the indexed string, the token of the indexing
  expression and what \<^verbatim>\<open>eval_expr_kind(i.Index)\<close> gave for the index (\<open>None\<close> for nil):
  the updated data and the diagnostics pushed here. (The source writes the new kind
  through the pointer \<^verbatim>\<open>d.Kind\<close>; the model follows the data only.)
\<close>

definition indexing_str ::
  "(string \<Rightarrow> bool) \<Rightarrow> Data \<Rightarrow> token \<Rightarrow> Data option \<Rightarrow> Data \<times> log list" where
  "indexing_str Is_int d itok index =
     (let d1 = d\<lparr>dKind := Some (Prim TypeKind_U8)\<rparr> in
      case index of
        None \<Rightarrow> (d1, [])
      | Some ix \<Rightarrow>
          (if \<not> Constant ix then d1\<lparr>Constant := False\<rparr> else d1,
           check_integer_indexing_by_data Is_int ix itok))"

text \<open>
  \<^verbatim>\<open>retChecker.pushval\<close>, \<^verbatim>\<open>checkepxrs\<close> and \<^verbatim>\<open>check\<close>. The state of a return checker
  is the list \<^verbatim>\<open>rc.values\<close> and the diagnostics pushed so far; \<^verbatim>\<open>evalTokens\<close> is
  the parameter \<open>ev\<close>, giving the value of a token run and the diagnostics of its
  evaluation.
\<close>

definition pushval ::
  "(token list \<Rightarrow> pvalue \<times> log list) \<Rightarrow> token list \<Rightarrow> nat \<Rightarrow> nat \<Rightarrow> token \<Rightarrow>
   pvalue list \<times> log list \<Rightarrow> pvalue list \<times> log list" where
  "pushval ev toks last' current errTk st =
     (case st of (vals, logs) \<Rightarrow>
        if current - last' = 0 then (vals, logs @ [(errTk, ''missing_value'')])
        else (case ev (take (current - last') (drop last' toks)) of
                (v, lg) \<Rightarrow> (vals @ [v], logs @ lg)))"

fun checkepxrs_loop ::
  "(token list \<Rightarrow> pvalue \<times> log list) \<Rightarrow> token list \<Rightarrow> token list \<Rightarrow> nat \<Rightarrow> int \<Rightarrow> nat \<Rightarrow>
   pvalue list \<times> log list \<Rightarrow> nat \<times> (pvalue list \<times> log list)" where
  "checkepxrs_loop ev toks [] index braceCount last' st = (last', st)"
| "checkepxrs_loop ev toks (t # ts) index braceCount last' st =
     (let bc = (if tokId t = lex_Brace
                then (if Kind t = ''('' \<or> Kind t = ''{'' \<or> Kind t = ''[''
                      then braceCount + 1 else braceCount - 1)
                else braceCount)
      in if bc > 0 \<or> tokId t \<noteq> lex_Comma
         then checkepxrs_loop ev toks ts (index + 1) bc last' st
         else checkepxrs_loop ev toks ts (index + 1) bc (index + 1)
                (pushval ev toks last' index t st))"

definition checkepxrs ::
  "(token list \<Rightarrow> pvalue \<times> log list) \<Rightarrow> token \<Rightarrow> DataType \<Rightarrow> token list \<Rightarrow> log list \<Rightarrow>
   panic + (log list \<times> assignChecker list)" where
  "checkepxrs ev retTok RetTy toks logs0 =
     (case checkepxrs_loop ev toks toks 0 0 0 ([], logs0) of
        (last', st) \<Rightarrow>
          (let st1 = (if last' < length toks
                      then (if last' = 0 then pushval ev toks 0 (length toks) retTok st
                            else pushval ev toks last' (length toks) (toks ! (last' - 1)) st)
                      else st)
           in if \<not> typeIsVoidReturn RetTy
              then (case checkExprTypes retTok RetTy (fst st1) of
                      Inl e \<Rightarrow> Inl e
                    | Inr (lg, tasks) \<Rightarrow> Inr (snd st1 @ lg, tasks))
              else Inr (snd st1, [])))"

definition retChecker_check ::
  "(token list \<Rightarrow> pvalue \<times> log list) \<Rightarrow> token \<Rightarrow> DataType \<Rightarrow> token list \<Rightarrow>
   panic + (log list \<times> assignChecker list)" where
  "retChecker_check ev retTok RetTy toks =
     (if length toks = 0 \<and> \<not> typeIsVoidReturn RetTy
      then Inr ([(retTok, ''require_return_value'')], [])
      else checkepxrs ev retTok RetTy toks
             (if length toks > 0 \<and> typeIsVoidReturn RetTy
              then [(retTok, ''void_function_return_value'')] else []))"

section \<open>Example inputs\<close>

text \<open>The integer codes of package x, for the examples.\<close>

definition IsIntegerType_x :: "code \<Rightarrow> bool" where
  "IsIntegerType_x c = (c \<in> {xI8, xI16, xI32, xI64, xU8, xU16, xU32, xU64})"

definition Is_int_x :: "string \<Rightarrow> bool" where
  "Is_int_x s = (s \<in> {''i8'', ''i16'', ''i32'', ''i64'', ''u8'', ''u16'', ''u32'', ''u64'',
                       ''int'', ''uint'', ''uintptr''})"

text \<open>
  Modelled from the spec: the bit-fit test \<^verbatim>\<open>xbits.CheckBitInt\<close> of package xbits,
  which is not among the sources ("a constant integer literal is assignable to a
  target numeric type iff its value fits the target's bit-width using a
  signed/unsigned-aware check"), for decimal literals.
\<close>

definition CheckBitInt_model :: "string \<Rightarrow> nat \<Rightarrow> bool" where
  "CheckBitInt_model s bits =
     (case ParseInt s 10 of
        (v, None) \<Rightarrow> - (2 ^ (bits - 1)) \<le> v \<and> v < 2 ^ (bits - 1)
      | (v, Some e) \<Rightarrow> False)"

definition i32Type :: DataType where
  "i32Type = DataType tok0 xI32 ''i32'' False NoTag"

definition strType :: DataType where
  "strType = DataType tok0 xStr ''str'' False NoTag"

definition valOf :: "string \<Rightarrow> DataType \<Rightarrow> pvalue" where
  "valOf d t = pvalue0\<lparr>ast := \<lparr>ValToken = tok0, Data = d, Type = t\<rparr>\<rparr>"

definition Parser0 :: Parser where
  "Parser0 = \<lparr>iterCount = 0, Funcs = [], GlobalVars = [], Types = [], BlockVars = [],
              Logs = []\<rparr>"

definition litTok :: "string \<Rightarrow> token" where
  "litTok s = \<lparr>tokId = lex_Value, Kind = s, Row = 1, Column = 1\<rparr>"

definition retTok0 :: token where
  "retTok0 = \<lparr>tokId = lex_Return, Kind = ''ret'', Row = 1, Column = 1\<rparr>"

definition commaTok :: token where
  "commaTok = \<lparr>tokId = lex_Comma, Kind = '','', Row = 1, Column = 1\<rparr>"

text \<open>A constant variable \<^verbatim>\<open>x\<close> of type \<^verbatim>\<open>i32\<close> in block scope.\<close>

definition constX :: Var where
  "constX = \<lparr>VarId = ''x'', VarIdToken = nameTok ''x'', VarType = i32Type,
             VarConst = True, VarVolatile = False\<rparr>"

text \<open>A return type \<^verbatim>\<open>(i32, i32)\<close>.\<close>

definition pairType :: DataType where
  "pairType = DataType tok0 xVoid [] True (TypesTag [i32Type, i32Type])"

text \<open>Every token run evaluates to an \<^verbatim>\<open>i32\<close> value without a diagnostic.\<close>

definition evI32 :: "token list \<Rightarrow> pvalue \<times> log list" where
  "evI32 toks = (valOf (Kind (hd toks)) i32Type, [])"

text \<open>Decimal digits and the number a digit string denotes.\<close>

definition isDigit :: "char \<Rightarrow> bool" where
  "isDigit c = (48 \<le> byte c \<and> byte c \<le> 57)"

definition decimal :: "nat \<Rightarrow> string \<Rightarrow> nat" where
  "decimal n s = foldl (\<lambda>n c. n * 10 + (byte c - 48)) n s"

text \<open>The invariant of the spec on \<^verbatim>\<open>Data\<close>.\<close>

definition data_inv :: "Data \<Rightarrow> bool" where
  "data_inv d = (Constant d \<longrightarrow> \<not> Lvalue d)"

section \<open>Statements and the iteration counter (parser/parser.go, checkBlock)\<close>

text \<open>
  The field \<^verbatim>\<open>iterCount\<close> is read by \<^verbatim>\<open>checkBreakStatement\<close> and
  \<^verbatim>\<open>checkContinueStatement\<close> and written by \<^verbatim>\<open>checkIterExpr\<close>; no other line of the
  package names it. The model below is the part of the statement checker that decides
  which of these three functions run, in which order and in which state of the counter:
  the walk of \<^verbatim>\<open>checkBlock\<close> over the statements and, through \<^verbatim>\<open>evalExpr\<close>, over the
  anonymous functions inside expressions (\<^verbatim>\<open>checkAnonFunc\<close>, \<^verbatim>\<open>checkFunc\<close>,
  \<^verbatim>\<open>checkRets\<close>). Of the other effects of the walk (diagnostics of expressions, the
  variable scopes) only the two diagnostics of break and continue are kept.

  An expression is reduced to the anonymous functions its evaluation parses and checks,
  in order; a statement to its kind, its \<^verbatim>\<open>WithTerminator\<close> flag where \<^verbatim>\<open>checkIfExpr\<close>
  reads it, its expressions and its blocks.
\<close>

datatype Expr = Expr "Fn list"
and Fn = Fn "Statement list"
and Profile = NoProfile | WhileProfile Expr | ForeachProfile Expr
and Statement =
    ExprStatement Expr
  | VarStatement Expr
  | Assign "Expr list"
  | Free Expr
  | Iter Profile "Statement list"
  | Break token
  | Continue token
  | If bool Expr "Statement list"
  | ElseIf bool Expr "Statement list"
  | Else "Statement list"
  | Ret Expr
  | OtherStatement token

definition checkBreakStatement :: "token \<Rightarrow> Parser \<Rightarrow> Parser" where
  "checkBreakStatement tk p =
     (if iterCount p = 0 then pusherrtok tk ''break_at_outiter'' p else p)"

definition checkContinueStatement :: "token \<Rightarrow> Parser \<Rightarrow> Parser" where
  "checkContinueStatement tk p =
     (if iterCount p = 0 then pusherrtok tk ''continue_at_outiter'' p else p)"

text \<open>
  \<^verbatim>\<open>checkBlock\<close> walks the statements by index, and \<^verbatim>\<open>checkIfExpr\<close> moves the index
  over the \<^verbatim>\<open>else if\<close> and \<^verbatim>\<open>else\<close> statements that follow an \<^verbatim>\<open>if\<close> without
  terminator. Here the walk is a recursion over the list, and the flag \<open>chain\<close> says
  that the statement before was an \<^verbatim>\<open>if\<close> or \<^verbatim>\<open>else if\<close> without terminator, so that an
  \<^verbatim>\<open>else if\<close> or \<^verbatim>\<open>else\<close> met now belongs to it; met otherwise, they fall to the default
  case of the switch. \<^verbatim>\<open>checkRets\<close> evaluates the expressions of the \<^verbatim>\<open>ret\<close> statements
  at the top level of a function body.
\<close>

function (sequential) evalExpr :: "Expr \<Rightarrow> Parser \<Rightarrow> Parser"
  and checkAnonFuncs :: "Fn list \<Rightarrow> Parser \<Rightarrow> Parser"
  and checkFunc :: "Fn \<Rightarrow> Parser \<Rightarrow> Parser"
  and evalExprs :: "Expr list \<Rightarrow> Parser \<Rightarrow> Parser"
  and checkRets :: "Statement list \<Rightarrow> Parser \<Rightarrow> Parser"
  and checkIterExpr :: "Profile \<Rightarrow> Statement list \<Rightarrow> Parser \<Rightarrow> Parser"
  and checkStatement :: "Statement \<Rightarrow> Parser \<Rightarrow> Parser"
  and checkBlock_from :: "bool \<Rightarrow> Statement list \<Rightarrow> Parser \<Rightarrow> Parser"
where
  "evalExpr (Expr fs) p = checkAnonFuncs fs p"
| "checkAnonFuncs [] p = p"
| "checkAnonFuncs (f # fs) p = checkAnonFuncs fs (checkFunc f p)"
| "checkFunc (Fn block) p = checkRets block (checkBlock_from False block p)"
| "evalExprs [] p = p"
| "evalExprs (e # es) p = evalExprs es (evalExpr e p)"
| "checkRets [] p = p"
| "checkRets (s # ss) p =
     (case s of Ret e \<Rightarrow> checkRets ss (evalExpr e p) | _ \<Rightarrow> checkRets ss p)"
| "checkIterExpr prof block p =
     (let p1 = p\<lparr>iterCount := iterCount p + 1\<rparr>;
          p2 = (case prof of
                  NoProfile \<Rightarrow> p1
                | WhileProfile e \<Rightarrow> checkBlock_from False block (evalExpr e p1)
                | ForeachProfile e \<Rightarrow> checkBlock_from False block (evalExpr e p1))
      in p2\<lparr>iterCount := iterCount p2 - 1\<rparr>)"
| "checkStatement (ExprStatement e) p = evalExpr e p"
| "checkStatement (VarStatement e) p = evalExpr e p"
| "checkStatement (Assign es) p = evalExprs es p"
| "checkStatement (Free e) p = evalExpr e p"
| "checkStatement (Iter prof block) p = checkIterExpr prof block p"
| "checkStatement (Break tk) p = checkBreakStatement tk p"
| "checkStatement (Continue tk) p = checkContinueStatement tk p"
| "checkStatement (If wt e block) p = checkBlock_from False block (evalExpr e p)"
| "checkStatement (ElseIf wt e block) p = checkBlock_from False block (evalExpr e p)"
| "checkStatement (Else block) p = checkBlock_from False block p"
| "checkStatement (Ret e) p = p"
| "checkStatement (OtherStatement tk) p = p"
| "checkBlock_from chain [] p = p"
| "checkBlock_from chain (s # ss) p =
     (case s of
        If wt e block \<Rightarrow> checkBlock_from (\<not> wt) ss (checkStatement s p)
      | ElseIf wt e block \<Rightarrow>
          if chain then checkBlock_from (\<not> wt) ss (checkStatement s p)
          else checkBlock_from False ss p
      | Else block \<Rightarrow>
          if chain then checkBlock_from False ss (checkStatement s p)
          else checkBlock_from False ss p
      | _ \<Rightarrow> checkBlock_from False ss (checkStatement s p))"
  by pat_completeness auto
termination
  by size_change

definition checkBlock :: "Statement list \<Rightarrow> Parser \<Rightarrow> Parser" where
  "checkBlock b p = checkBlock_from False b p"

text \<open>Examples: \<^verbatim>\<open>iter { break }\<close> followed by \<^verbatim>\<open>break\<close>, checked from a fresh parser.\<close>

definition breakTok :: "int \<Rightarrow> token" where
  "breakTok row = \<lparr>tokId = lex_Id, Kind = ''break'', Row = row, Column = 1\<rparr>"

definition loop_then_break :: "Statement list" where
  "loop_then_break =
     [Iter (WhileProfile (Expr [])) [Break (breakTok 1)], Break (breakTok 2)]"

section \<open>Type resolution (parser/parser.go and parser/types.go, readyType)\<close>

text \<open>
  \<^verbatim>\<open>readyType\<close> calls itself along alias chains, and an alias that names itself makes
  it run forever. The model counts the depth of the calls with a fuel: a call returns,
  panics, or runs out of fuel.
\<close>

datatype 'a outcome = OutOfFuel | Panicked panic | Done 'a

definition bindO :: "'a outcome \<Rightarrow> ('a \<Rightarrow> 'b outcome) \<Rightarrow> 'b outcome" where
  "bindO m f = (case m of OutOfFuel \<Rightarrow> OutOfFuel | Panicked e \<Rightarrow> Panicked e | Done x \<Rightarrow> f x)"

definition mapO :: "('a \<Rightarrow> 'b) \<Rightarrow> 'a outcome \<Rightarrow> 'b outcome" where
  "mapO g m = bindO m (\<lambda>x. Done (g x))"

text \<open>A loop over a slice whose body may fail: the results in order, or the first failure.\<close>

primrec traverse :: "('a \<Rightarrow> 'b outcome) \<Rightarrow> 'a list \<Rightarrow> 'b list outcome" where
  "traverse f [] = Done []"
| "traverse f (x # xs) = bindO (f x) (\<lambda>y. bindO (traverse f xs) (\<lambda>ys. Done (y # ys)))"

definition setValue :: "DataType \<Rightarrow> string \<Rightarrow> DataType" where
  "setValue dt v = DataType (Token dt) (Code dt) v (MultiTyped dt) (Tag dt)"

definition setParamType :: "Parameter \<Rightarrow> DataType \<Rightarrow> Parameter" where
  "setParamType prm t = Parameter (ParamId prm) (ParamConst prm) t"

text \<open>
  The body of \<^verbatim>\<open>readyType\<close> of parser.go, with \<open>rec\<close> for the calls to itself. The
  result is the type, the \<^verbatim>\<open>ok\<close> flag and the diagnostics pushed.

  In the function case the loop stores each resolved parameter type through the
  slice \<^verbatim>\<open>funAST.Params\<close>, which the tag of \<^verbatim>\<open>dt\<close> shares; \<^verbatim>\<open>funAST.RetType\<close> is
  assigned in a copy, so the tag keeps the return type as it was, and the lexeme is
  \<^verbatim>\<open>DataTypeString\<close> (the parameter \<open>dts\<close>) of the tag. In the name case \<^verbatim>\<open>typeById\<close>
  hands out the address of a copy of the table entry, so the new lexeme does not
  reach the table. (The parameter arrays of a function type stored in the table are
  shared too; the model returns the resolved parameters in the result only.)
\<close>

type_synonym ready = "DataType \<times> bool \<times> log list"

definition readyType_body ::
  "(Func \<Rightarrow> string) \<Rightarrow> Parser \<Rightarrow> (DataType \<Rightarrow> bool \<Rightarrow> ready outcome) \<Rightarrow>
   DataType \<Rightarrow> bool \<Rightarrow> ready outcome" where
  "readyType_body dts p rec dt err =
    (if Value dt = [] then Done (dt, True, [])
     else if Code dt = xName then
       (case typeById p (Kind (Token dt)) of
          None \<Rightarrow> Done (dt, False, if err then [(Token dt, ''invalid_type_source'')] else [])
        | Some t \<Rightarrow>
            if length (Value dt) < length (Kind (Token dt)) then Panicked SliceBoundsOutOfRange
            else rec (setValue (AliasType t)
                      (take (length (Value dt) - length (Kind (Token dt))) (Value dt)
                       @ Value (AliasType t))) err)
     else if Code dt = xFunc then
       (case Tag dt of
          FuncTag funAST \<Rightarrow>
            bindO (traverse (\<lambda>param. rec (ParamType param) err) (Params funAST))
              (\<lambda>rs. bindO (rec (RetType funAST) err)
                (\<lambda>rr.
                   let f' = Func (FuncId funAST)
                              (map (\<lambda>(param, r). setParamType param (fst r))
                                 (zip (Params funAST) rs))
                              (RetType funAST)
                   in Done (DataType (Token dt) xFunc (dts f') (MultiTyped dt) (FuncTag f'),
                            True, concat (map (\<lambda>r. snd (snd r)) rs) @ snd (snd rr))))
        | _ \<Rightarrow> Panicked TypeAssertionFailed)
     else Done (dt, True, []))"

primrec readyType ::
  "(Func \<Rightarrow> string) \<Rightarrow> Parser \<Rightarrow> nat \<Rightarrow> DataType \<Rightarrow> bool \<Rightarrow> ready outcome" where
  "readyType dts p 0 = (\<lambda>dt err. OutOfFuel)"
| "readyType dts p (Suc n) = readyType_body dts p (readyType dts p n)"

text \<open>\<^verbatim>\<open>readyType\<close> of types.go: no \<^verbatim>\<open>err\<close> parameter, no diagnostic.\<close>

definition readyTypeAST_body ::
  "(Func \<Rightarrow> string) \<Rightarrow> Parser \<Rightarrow> (DataType \<Rightarrow> (DataType \<times> bool) outcome) \<Rightarrow>
   DataType \<Rightarrow> (DataType \<times> bool) outcome" where
  "readyTypeAST_body dts p rec dt =
    (if Value dt = [] then Done (dt, True)
     else if Code dt = xName then
       (case typeById p (Kind (Token dt)) of
          None \<Rightarrow> Done (dt, False)
        | Some t \<Rightarrow>
            if length (Value dt) < length (Kind (Token dt)) then Panicked SliceBoundsOutOfRange
            else rec (setValue (AliasType t)
                      (take (length (Value dt) - length (Kind (Token dt))) (Value dt)
                       @ Value (AliasType t))))
     else if Code dt = xFunc then
       (case Tag dt of
          FuncTag funAST \<Rightarrow>
            bindO (traverse (\<lambda>param. rec (ParamType param)) (Params funAST))
              (\<lambda>rs. bindO (rec (RetType funAST))
                (\<lambda>rr.
                   let f' = Func (FuncId funAST)
                              (map (\<lambda>(param, r). setParamType param (fst r))
                                 (zip (Params funAST) rs))
                              (RetType funAST)
                   in Done (DataType (Token dt) xFunc (dts f') (MultiTyped dt) (FuncTag f'),
                            True)))
        | _ \<Rightarrow> Panicked TypeAssertionFailed)
     else Done (dt, True))"

primrec readyTypeAST ::
  "(Func \<Rightarrow> string) \<Rightarrow> Parser \<Rightarrow> nat \<Rightarrow> DataType \<Rightarrow> (DataType \<times> bool) outcome" where
  "readyTypeAST dts p 0 = (\<lambda>dt. OutOfFuel)"
| "readyTypeAST dts p (Suc n) = readyTypeAST_body dts p (readyTypeAST dts p n)"

text \<open>
  For the proofs: \<open>mono_rec\<close> (what \<open>r1\<close> returns, \<open>r2\<close> returns too), \<open>idem_rec\<close>
  (\<open>r1\<close> returns its own result unchanged, diagnostics aside) and the parameter list
  the function case builds.
\<close>

definition mono_rec ::
  "(DataType \<Rightarrow> bool \<Rightarrow> ready outcome) \<Rightarrow> (DataType \<Rightarrow> bool \<Rightarrow> ready outcome) \<Rightarrow> bool" where
  "mono_rec r1 r2 = (\<forall>dt err r. r1 dt err = Done r \<longrightarrow> r2 dt err = Done r)"

definition idem_rec :: "(DataType \<Rightarrow> bool \<Rightarrow> ready outcome) \<Rightarrow> bool" where
  "idem_rec r1 = (\<forall>dt err r ok lg. r1 dt err = Done (r, ok, lg) \<longrightarrow>
                    (\<exists>lg'. r1 r err = Done (r, ok, lg')))"

definition readyParams :: "Parameter list \<Rightarrow> ready list \<Rightarrow> Parameter list" where
  "readyParams ps rs = map (\<lambda>(param, r). setParamType param (fst r)) (zip ps rs)"

text \<open>Examples: the alias \<^verbatim>\<open>type A i32\<close> and the type \<^verbatim>\<open>*A\<close>.\<close>

definition aliasA :: TypeAlias where
  "aliasA = \<lparr>AliasId = ''A'', AliasToken = nameTok ''A'', AliasType = i32Type\<rparr>"

definition ptrA :: DataType where
  "ptrA = DataType (nameTok ''A'') xName ''*A'' False NoTag"

definition ptrI32 :: DataType where
  "ptrI32 = DataType tok0 xI32 ''*i32'' False NoTag"

chapter \<open>Theorems\<close>

section \<open>C1: the operator nextOperator selects\<close>

lemma nextOperator_loop_snoc:
  "nextOperator_loop i (ps @ [p]) st =
     nextOperator_step (i + int (length ps)) p (nextOperator_loop i ps st)"
  by (induction ps arbitrary: i st) (simp_all add: algebra_simps)

lemma lastAt_snoc_other:
  "lastAt L v ps \<Longrightarrow> level p \<noteq> L \<Longrightarrow> lastAt L v (ps @ [p])"
  unfolding lastAt_def
  apply (erule disjE)
   apply (rule disjI1)
   apply (auto simp: nth_append less_Suc_eq)[1]
  apply (rule disjI2)
  apply (elim exE conjE)
  subgoal for k
    apply (rule exI[of _ k])
    apply (auto simp: nth_append less_Suc_eq)
    done
  done

lemma lastAt_snoc_same:
  "level p = L \<Longrightarrow> lastAt L (int (length ps)) (ps @ [p])"
  unfolding lastAt_def
  apply (rule disjI2)
  apply (rule exI[of _ "length ps"])
  apply (auto simp: nth_append)
  done

lemma lastAt_snoc:
  "lastAt L v ps \<Longrightarrow> lastAt L (if level p = L then int (length ps) else v) (ps @ [p])"
  by (simp add: lastAt_snoc_other lastAt_snoc_same)

lemma step_fields:
  "fst (nextOperator_step i p st) =
     \<lparr>precedence5 = (if level p = 5 then i else precedence5 (fst st)),
      precedence4 = (if level p = 4 then i else precedence4 (fst st)),
      precedence3 = (if level p = 3 then i else precedence3 (fst st)),
      precedence2 = (if level p = 2 then i else precedence2 (fst st)),
      precedence1 = (if level p = 1 then i else precedence1 (fst st))\<rparr>"
  unfolding nextOperator_step_def level_def
  by (cases st) simp

lemma loop_lastAt:
  "lastAt 5 (precedence5 (fst (nextOperator_loop 0 ps (precs0, [])))) ps \<and>
   lastAt 4 (precedence4 (fst (nextOperator_loop 0 ps (precs0, [])))) ps \<and>
   lastAt 3 (precedence3 (fst (nextOperator_loop 0 ps (precs0, [])))) ps \<and>
   lastAt 2 (precedence2 (fst (nextOperator_loop 0 ps (precs0, [])))) ps \<and>
   lastAt 1 (precedence1 (fst (nextOperator_loop 0 ps (precs0, [])))) ps"
proof (induction ps rule: rev_induct)
  case Nil
  show ?case by (simp add: lastAt_def precs0_def)
next
  case (snoc p ps)
  show ?case
    using snoc.IH
    by (simp only: nextOperator_loop_snoc step_fields precs.simps add_0 lastAt_snoc simp_thms)
qed

lemma level_le5: "level p \<le> 5"
  by (simp add: level_def)

lemma lastAt_hit:
  assumes "lastAt L v ps" and "v \<noteq> -1" and "\<forall>k<length ps. level (ps ! k) \<le> L"
  shows "\<exists>j<length ps. v = int j \<and> level (ps ! j) = L \<and>
           (\<forall>k<length ps. level (ps ! k) \<le> level (ps ! j)) \<and>
           (\<forall>k<length ps. j < k \<longrightarrow> level (ps ! k) < level (ps ! j))"
proof -
  from assms(1,2) obtain j where j: "j < length ps" "v = int j" "level (ps ! j) = L"
    "\<forall>k'<length ps. j < k' \<longrightarrow> level (ps ! k') \<noteq> L"
    unfolding lastAt_def by blast
  have "\<forall>k<length ps. j < k \<longrightarrow> level (ps ! k) < level (ps ! j)"
    using j(3,4) assms(3) by (metis le_neq_implies_less)
  with j assms(3) show ?thesis by blast
qed

lemma lastAt_miss:
  assumes "lastAt L v ps" and "v = -1" and "\<forall>k<length ps. level (ps ! k) \<le> L"
  shows "\<forall>k<length ps. level (ps ! k) \<le> L - 1"
proof -
  from assms(1,2) have "\<forall>k<length ps. level (ps ! k) \<noteq> L"
    unfolding lastAt_def by auto
  with assms(3) show ?thesis
    by (metis Suc_pred' le_neq_implies_less less_Suc_eq_le not_gr_zero le_zero_eq)
qed

lemmas c1_eval = a_plus_b_plus_c_def nameTok_def opTok_def nextOperator_def
  nextOperator_step_def nextOperator_pick_def precs0_def ops5_def ops4_def ops3_def level_def

text \<open>
  C1, as the spec states it, fails: among the operators of the highest precedence left
  \<^verbatim>\<open>nextOperator\<close> returns the rightmost, not the leftmost. In \<^verbatim>\<open>a + b + c\<close> the two
  \<^verbatim>\<open>+\<close> stand at indices 1 and 3, share their precedence, and index 3 is returned.
\<close>

theorem nextOperator_leftmost_counterexample:
  "fst (nextOperator a_plus_b_plus_c) = 3 \<and>
   level (a_plus_b_plus_c ! 1) = 4 \<and> level (a_plus_b_plus_c ! 3) = 4"
  by (simp add: c1_eval)

text \<open>
  C1 (amended): \<^verbatim>\<open>nextOperator\<close> returns -1 when no process is an operator of a known
  kind; otherwise it returns the index of an operator process whose precedence no other
  process exceeds, and every process to the right of it has a strictly lower
  precedence: it selects the highest precedence remaining, and among equals the
  rightmost occurrence.
\<close>

theorem nextOperator_highest_rightmost:
  "((\<forall>k<length tokens. level (tokens ! k) = 0) \<longrightarrow> fst (nextOperator tokens) = -1) \<and>
   ((\<exists>k<length tokens. 0 < level (tokens ! k)) \<longrightarrow>
      (\<exists>j<length tokens. fst (nextOperator tokens) = int j \<and> 0 < level (tokens ! j) \<and>
         (\<forall>k<length tokens. level (tokens ! k) \<le> level (tokens ! j)) \<and>
         (\<forall>k<length tokens. j < k \<longrightarrow> level (tokens ! k) < level (tokens ! j))))"
proof -
  define r where "r = fst (nextOperator_loop 0 tokens (precs0, []))"
  have res: "fst (nextOperator tokens) = nextOperator_pick r"
    by (simp add: nextOperator_def r_def split: prod.splits)
  have la: "lastAt 5 (precedence5 r) tokens" "lastAt 4 (precedence4 r) tokens"
    "lastAt 3 (precedence3 r) tokens" "lastAt 2 (precedence2 r) tokens"
    "lastAt 1 (precedence1 r) tokens"
    using loop_lastAt[of tokens] by (simp_all add: r_def)
  let ?hit = "\<lambda>v L. \<exists>j<length tokens. v = int j \<and> level (tokens ! j) = L \<and>
         (\<forall>k<length tokens. level (tokens ! k) \<le> level (tokens ! j)) \<and>
         (\<forall>k<length tokens. j < k \<longrightarrow> level (tokens ! k) < level (tokens ! j))"
  have b5: "\<forall>k<length tokens. level (tokens ! k) \<le> 5" by (simp add: level_le5)
  consider (p5) "precedence5 r \<noteq> -1"
    | (p4) "precedence5 r = -1" "precedence4 r \<noteq> -1"
    | (p3) "precedence5 r = -1" "precedence4 r = -1" "precedence3 r \<noteq> -1"
    | (p2) "precedence5 r = -1" "precedence4 r = -1" "precedence3 r = -1"
        "precedence2 r \<noteq> -1"
    | (p1) "precedence5 r = -1" "precedence4 r = -1" "precedence3 r = -1"
        "precedence2 r = -1" "precedence1 r \<noteq> -1"
    | (p0) "precedence5 r = -1" "precedence4 r = -1" "precedence3 r = -1"
        "precedence2 r = -1" "precedence1 r = -1"
    by blast
  then show ?thesis
  proof cases
    case p5
    have "?hit (precedence5 r) 5" using lastAt_hit[OF la(1) p5 b5] .
    moreover have "nextOperator_pick r = precedence5 r"
      using p5 by (simp add: nextOperator_pick_def)
    ultimately show ?thesis unfolding res by fastforce
  next
    case p4
    have b4: "\<forall>k<length tokens. level (tokens ! k) \<le> 4"
      using lastAt_miss[OF la(1) p4(1) b5] by simp
    have "?hit (precedence4 r) 4" using lastAt_hit[OF la(2) p4(2) b4] .
    moreover have "nextOperator_pick r = precedence4 r"
      using p4 by (simp add: nextOperator_pick_def)
    ultimately show ?thesis unfolding res by fastforce
  next
    case p3
    have b4: "\<forall>k<length tokens. level (tokens ! k) \<le> 4"
      using lastAt_miss[OF la(1) p3(1) b5] by simp
    have b3: "\<forall>k<length tokens. level (tokens ! k) \<le> 3"
      using lastAt_miss[OF la(2) p3(2) b4] by simp
    have "?hit (precedence3 r) 3" using lastAt_hit[OF la(3) p3(3) b3] .
    moreover have "nextOperator_pick r = precedence3 r"
      using p3 by (simp add: nextOperator_pick_def)
    ultimately show ?thesis unfolding res by fastforce
  next
    case p2
    have b4: "\<forall>k<length tokens. level (tokens ! k) \<le> 4"
      using lastAt_miss[OF la(1) p2(1) b5] by simp
    have b3: "\<forall>k<length tokens. level (tokens ! k) \<le> 3"
      using lastAt_miss[OF la(2) p2(2) b4] by simp
    have b2: "\<forall>k<length tokens. level (tokens ! k) \<le> 2"
      using lastAt_miss[OF la(3) p2(3) b3] by simp
    have "?hit (precedence2 r) 2" using lastAt_hit[OF la(4) p2(4) b2] .
    moreover have "nextOperator_pick r = precedence2 r"
      using p2 by (simp add: nextOperator_pick_def)
    ultimately show ?thesis unfolding res by fastforce
  next
    case p1
    have b4: "\<forall>k<length tokens. level (tokens ! k) \<le> 4"
      using lastAt_miss[OF la(1) p1(1) b5] by simp
    have b3: "\<forall>k<length tokens. level (tokens ! k) \<le> 3"
      using lastAt_miss[OF la(2) p1(2) b4] by simp
    have b2: "\<forall>k<length tokens. level (tokens ! k) \<le> 2"
      using lastAt_miss[OF la(3) p1(3) b3] by simp
    have b1: "\<forall>k<length tokens. level (tokens ! k) \<le> 1"
      using lastAt_miss[OF la(4) p1(4) b2] by simp
    have "?hit (precedence1 r) 1" using lastAt_hit[OF la(5) p1(5) b1] .
    moreover have "nextOperator_pick r = precedence1 r"
      using p1 by (simp add: nextOperator_pick_def)
    ultimately show ?thesis unfolding res by fastforce
  next
    case p0
    have b4: "\<forall>k<length tokens. level (tokens ! k) \<le> 4"
      using lastAt_miss[OF la(1) p0(1) b5] by simp
    have b3: "\<forall>k<length tokens. level (tokens ! k) \<le> 3"
      using lastAt_miss[OF la(2) p0(2) b4] by simp
    have b2: "\<forall>k<length tokens. level (tokens ! k) \<le> 2"
      using lastAt_miss[OF la(3) p0(3) b3] by simp
    have b1: "\<forall>k<length tokens. level (tokens ! k) \<le> 1"
      using lastAt_miss[OF la(4) p0(4) b2] by simp
    have b0: "\<forall>k<length tokens. level (tokens ! k) = 0"
      using lastAt_miss[OF la(5) p0(5) b1] by simp
    moreover have "nextOperator_pick r = -1"
      using p0 by (simp add: nextOperator_pick_def)
    ultimately show ?thesis unfolding res by simp
  qed
qed

theorem nextOperator_highest_rightmost_witness:
  "fst (nextOperator []) = -1 \<and>
   (\<exists>j<length a_plus_b_plus_c. fst (nextOperator a_plus_b_plus_c) = int j \<and>
       0 < level (a_plus_b_plus_c ! j) \<and>
       (\<forall>k<length a_plus_b_plus_c. level (a_plus_b_plus_c ! k) \<le> level (a_plus_b_plus_c ! j)) \<and>
       (\<forall>k<length a_plus_b_plus_c. j < k \<longrightarrow>
          level (a_plus_b_plus_c ! k) < level (a_plus_b_plus_c ! j)))"
proof -
  have h: "\<exists>k<length a_plus_b_plus_c. 0 < level (a_plus_b_plus_c ! k)"
    by (rule exI[of _ 1]) (simp add: c1_eval)
  show ?thesis
    using nextOperator_highest_rightmost[of "[]"]
      nextOperator_highest_rightmost[of a_plus_b_plus_c] h
    by simp
qed

section \<open>C4: nil compatibility\<close>

text \<open>
  C4, as the spec states it, fails: \<^verbatim>\<open>typeIsNilCompatible\<close> does not hold of the slice
  type \<^verbatim>\<open>[]i32\<close>. The type still accepts \<^verbatim>\<open>nil\<close>, through the array case of
  \<^verbatim>\<open>typesAreCompatible\<close>, which is tried first.
\<close>

theorem typeIsNilCompatible_slice_counterexample:
  "typeIsArray i32Slice \<and> \<not> typeIsNilCompatible i32Slice \<and>
   typesAreCompatible tcNone i32Slice nilType False"
  by (simp add: i32Slice_def nilType_def typeIsArray_def typeIsNilCompatible_def
      typeIsPointer_def typesAreCompatible_def checkArrayCompatiblity_def)

text \<open>
  C4 (amended): \<^verbatim>\<open>typeIsNilCompatible t\<close> holds exactly when \<open>t\<close> is a pointer type or
  has the code Func. A \<^verbatim>\<open>nil\<close> source (on either side) is accepted by
  \<^verbatim>\<open>typesAreCompatible\<close> exactly when the other type is an array/slice type, a pointer
  type or a function type, or the primitive table of package x accepts its code
  against Nil.
\<close>

theorem nil_compatibility:
  "(typeIsNilCompatible t \<longleftrightarrow> typeIsPointer t \<or> Code t = xFunc) \<and>
   typesAreCompatible tc t nilType ig =
     (typeIsArray t \<or> typeIsPointer t \<or> Code t = xFunc \<or> tc (Code t) xNil ig) \<and>
   typesAreCompatible tc nilType t ig =
     (typeIsArray t \<or> typeIsPointer t \<or> Code t = xFunc \<or> tc xNil (Code t) ig)"
proof -
  have n: "\<not> typeIsArray nilType" "\<not> typeIsNilCompatible nilType" "Code nilType = xNil"
    by (simp_all add: nilType_def typeIsArray_def typeIsNilCompatible_def typeIsPointer_def)
  show ?thesis
    using n by (auto simp: typesAreCompatible_def checkArrayCompatiblity_def
        typeIsNilCompatible_def)
qed

theorem nil_compatibility_witness:
  "\<not> typeIsNilCompatible i32Slice \<and>
   typesAreCompatible tcNone i32Slice nilType False \<and>
   typesAreCompatible tcNone nilType i32Slice False"
  using nil_compatibility[of i32Slice tcNone False]
  by (simp add: i32Slice_def typeIsArray_def typeIsPointer_def)

section \<open>C3: the type of a numeric literal\<close>

lemma decimal_Nil: "decimal n [] = n"
  by (simp add: decimal_def)

lemma decimal_Cons: "decimal n (c # cs) = decimal (n * 10 + (byte c - 48)) cs"
  by (simp add: decimal_def)

lemma decimal_ge: "n \<le> decimal n s"
proof (induction s arbitrary: n)
  case Nil
  show ?case by (simp add: decimal_Nil)
next
  case (Cons c cs)
  have "n \<le> n * 10 + (byte c - 48)" by simp
  also have "\<dots> \<le> decimal (n * 10 + (byte c - 48)) cs" by (rule Cons.IH)
  finally show ?case by (simp add: decimal_Cons)
qed

lemma digitVal_digit: "isDigit c \<Longrightarrow> digitVal c = Some (byte c - 48)"
  by (simp add: isDigit_def digitVal_def)

lemma ParseUint_loop_decimal:
  "\<forall>c\<in>set s. isDigit c \<Longrightarrow> n < 2 ^ 64 \<Longrightarrow>
   ParseUint_loop 10 n s =
     (if decimal n s < 2 ^ 64 then (decimal n s, None) else (2 ^ 64 - 1, Some ErrRange))"
proof (induction s arbitrary: n)
  case Nil
  then show ?case by (simp add: decimal_Nil)
next
  case (Cons c cs)
  have d: "digitVal c = Some (byte c - 48)" using Cons.prems by (simp add: digitVal_digit)
  have lt: "byte c - 48 < (10::nat)" using Cons.prems by (auto simp: isDigit_def)
  show ?case
  proof (cases "n * 10 + (byte c - 48) \<ge> 2 ^ 64")
    case True
    then have "decimal (n * 10 + (byte c - 48)) cs \<ge> 2 ^ 64"
      using decimal_ge le_trans by blast
    then show ?thesis using True d lt by (simp add: decimal_Cons)
  next
    case False
    then show ?thesis using d lt Cons.IH[of "n * 10 + (byte c - 48)"] Cons.prems
      by (simp add: decimal_Cons)
  qed
qed

lemma ParseUint_decimal:
  assumes "s \<noteq> []" and "\<forall>c\<in>set s. isDigit c"
  shows "ParseUint s 10 =
     (if decimal 0 s < 2 ^ 64 then (decimal 0 s, None) else (2 ^ 64 - 1, Some ErrRange))"
  using assms by (simp add: ParseUint_def ParseUint_loop_decimal)

lemma ParseInt_decimal:
  assumes "s \<noteq> []" and "\<forall>c\<in>set s. isDigit c"
  shows "ParseInt s 10 =
     (if decimal 0 s < 2 ^ 63 then (int (decimal 0 s), None) else (2 ^ 63 - 1, Some ErrRange))"
proof -
  have h: "hd s \<noteq> CHR ''-''" "hd s \<noteq> CHR ''+''"
    using assms by (cases s; auto simp: isDigit_def)+
  have lt: "(2::nat) ^ 63 < 2 ^ 64" by simp
  show ?thesis
    using assms(1) h lt by (auto simp add: ParseInt_def ParseUint_decimal[OF assms] Let_def)
qed

lemma lit_int_base_decimal:
  assumes "s \<noteq> []" and "\<forall>c\<in>set s. isDigit c" and "hd s \<noteq> CHR ''0'' \<or> length s = 1"
  shows "lit_int_base s = Inr (s, 10)"
proof -
  obtain c cs where s: "s = c # cs" using assms(1) by (cases s) auto
  have "take 2 s \<noteq> ''0x''" "take 2 s \<noteq> ''0b''"
    using assms(2) s by (cases cs; auto simp: isDigit_def)+
  then show ?thesis using assms s by (auto simp: lit_int_base_def)
qed

lemma lit_int_value_decimal:
  assumes "s \<noteq> []" and "\<forall>c\<in>set s. isDigit c" and "hd s \<noteq> CHR ''0'' \<or> length s = 1"
  shows "lit_int_value s =
     Inr (if decimal 0 s < 2 ^ 63 then Int64 (int (decimal 0 s))
          else Uint64 (min (decimal 0 s) (2 ^ 64 - 1)))"
  using assms(1)
  by (auto simp: lit_int_value_def lit_int_base_decimal[OF assms]
      ParseInt_decimal[OF assms(1,2)] ParseUint_decimal[OF assms(1,2)] min_def)

lemma num_Code:
  "Code (Type (ast (num cb tk))) =
     (if CHR ''.'' \<in> set (Kind tk) \<or> CHR ''e'' \<in> set (Kind tk) \<or> CHR ''E'' \<in> set (Kind tk)
      then xF64 else if cb (Kind tk) 32 then xI32 else xI64)"
  by (simp add: num_def Let_def)

text \<open>
  C3, as the spec states it, fails for \<^verbatim>\<open>valueEvaluator.num\<close>: the literal
  18446744073709551615 fits neither 32 nor 64 signed bits, and its type is I64, not U64.
\<close>

theorem num_u64_counterexample:
  "Code (Type (ast (num CheckBitInt_model (litTok ''18446744073709551615'')))) = xI64 \<and>
   \<not> CheckBitInt_model ''18446744073709551615'' 32 \<and>
   \<not> CheckBitInt_model ''18446744073709551615'' 64"
  by (simp add: num_Code litTok_def CheckBitInt_model_def ParseInt_def ParseUint_def
      digitVal_def)

text \<open>
  C3 (amended). In parser.go, \<^verbatim>\<open>num\<close> gives a lexeme without \<^verbatim>\<open>.\<close>, \<^verbatim>\<open>e\<close> and \<^verbatim>\<open>E\<close>
  the type I32 when \<^verbatim>\<open>CheckBitInt(lexeme, 32)\<close> holds and I64 otherwise (never U64), and
  gives F64 to a lexeme with a \<^verbatim>\<open>.\<close>, or with an exponent letter and no \<^verbatim>\<open>0x\<close> prefix.
  In sema/eval.go, \<^verbatim>\<open>lit_float\<close> gives F64, and \<^verbatim>\<open>lit_int\<close> gives a decimal literal
  (digits only, no leading zero) the signed kind that package types picks for its
  value when the value is below \<open>2^63\<close>, and the unsigned kind of its value, cut at
  \<open>2^64 - 1\<close>, otherwise.
\<close>

theorem literal_types:
  "(CHR ''.'' \<notin> set (Kind tk) \<and> CHR ''e'' \<notin> set (Kind tk) \<and> CHR ''E'' \<notin> set (Kind tk) \<longrightarrow>
      Code (Type (ast (num cb tk))) = (if cb (Kind tk) 32 then xI32 else xI64)) \<and>
   (CHR ''.'' \<in> set (Kind tk) \<or>
    ((CHR ''e'' \<in> set (Kind tk) \<or> CHR ''E'' \<in> set (Kind tk)) \<and> take 2 (Kind tk) \<noteq> ''0x'') \<longrightarrow>
      Code (Type (ast (num cb tk))) = xF64) \<and>
   lit_float l = lit_data (Prim TypeKind_F64) \<and>
   (l \<noteq> [] \<and> (\<forall>c\<in>set l. isDigit c) \<and> (hd l \<noteq> CHR ''0'' \<or> length l = 1) \<longrightarrow>
      lit_int ik uk l =
        Inr (lit_data (Prim (if decimal 0 l < 2 ^ 63 then ik (int (decimal 0 l))
                             else uk (min (decimal 0 l) (2 ^ 64 - 1))))))"
proof (intro conjI impI)
  assume "CHR ''.'' \<notin> set (Kind tk) \<and> CHR ''e'' \<notin> set (Kind tk) \<and> CHR ''E'' \<notin> set (Kind tk)"
  then show "Code (Type (ast (num cb tk))) = (if cb (Kind tk) 32 then xI32 else xI64)"
    by (simp add: num_Code)
next
  assume "CHR ''.'' \<in> set (Kind tk) \<or>
    ((CHR ''e'' \<in> set (Kind tk) \<or> CHR ''E'' \<in> set (Kind tk)) \<and> take 2 (Kind tk) \<noteq> ''0x'')"
  then show "Code (Type (ast (num cb tk))) = xF64"
    by (auto simp add: num_Code)
next
  show "lit_float l = lit_data (Prim TypeKind_F64)"
    by (simp add: lit_float_def)
next
  assume a: "l \<noteq> [] \<and> (\<forall>c\<in>set l. isDigit c) \<and> (hd l \<noteq> CHR ''0'' \<or> length l = 1)"
  then have "lit_int_value l =
     Inr (if decimal 0 l < 2 ^ 63 then Int64 (int (decimal 0 l))
          else Uint64 (min (decimal 0 l) (2 ^ 64 - 1)))"
    using lit_int_value_decimal[of l] by blast
  then show "lit_int ik uk l =
        Inr (lit_data (Prim (if decimal 0 l < 2 ^ 63 then ik (int (decimal 0 l))
                             else uk (min (decimal 0 l) (2 ^ 64 - 1)))))"
    by (simp add: lit_int_def kind_by_bitsize_def)
qed

theorem literal_types_witness:
  "Code (Type (ast (num CheckBitInt_model (litTok ''7'')))) = xI32 \<and>
   Code (Type (ast (num CheckBitInt_model (litTok ''1.5'')))) = xF64 \<and>
   lit_int (\<lambda>v. ''signed'') (\<lambda>v. ''unsigned'') ''7'' = Inr (lit_data (Prim ''signed'')) \<and>
   lit_int (\<lambda>v. ''signed'') (\<lambda>v. ''unsigned'') ''18446744073709551615'' =
     Inr (lit_data (Prim ''unsigned''))"
proof -
  have c: "CheckBitInt_model ''7'' 32"
    by (simp add: CheckBitInt_model_def ParseInt_def ParseUint_def digitVal_def)
  show ?thesis
    using literal_types[where tk = "litTok ''7''" and cb = CheckBitInt_model and l = "''7''"
        and ik = "\<lambda>v. ''signed''" and uk = "\<lambda>v. ''unsigned''"]
      literal_types[where tk = "litTok ''1.5''" and cb = CheckBitInt_model
        and l = "''18446744073709551615''"
        and ik = "\<lambda>v. ''signed''" and uk = "\<lambda>v. ''unsigned''"]
      c
    by (simp add: litTok_def isDigit_def decimal_def)
qed

section \<open>C2: indexing a string\<close>

text \<open>
  C2, as the spec states it, fails for \<^verbatim>\<open>evalStrSelect\<close>: indexing a value of type
  \<^verbatim>\<open>str\<close> with an \<^verbatim>\<open>i32\<close> index yields the type code Rune (the lexeme stays
  \<^verbatim>\<open>str\<close>), not U8.
\<close>

theorem evalStrSelect_rune_counterexample:
  "Code (Type (ast (fst (evalStrSelect IsIntegerType_x (valOf ''s'' strType)
      (valOf ''0'' i32Type) tok0 Parser0)))) = xRune \<and>
   Logs (snd (evalStrSelect IsIntegerType_x (valOf ''s'' strType)
      (valOf ''0'' i32Type) tok0 Parser0)) = []"
  by (simp add: evalStrSelect_def Let_def valOf_def strType_def i32Type_def Parser0_def
      typeIsSingle_def typeIsPointer_def typeIsArray_def IsIntegerType_x_def pvalue0_def)

text \<open>
  C2 (amended). In sema/eval.go, \<^verbatim>\<open>indexing_str\<close> gives the result the primitive kind
  U8, and an index that was evaluated and is not of an integer primitive kind gets the
  diagnostic \<^verbatim>\<open>invalid_expr\<close>. In parser.go, \<^verbatim>\<open>evalStrSelect\<close> gives the result the
  type code Rune and marks it an lvalue, and an index whose type is not a single
  integer type gets the diagnostic \<^verbatim>\<open>notint_string_select\<close>.
\<close>

theorem string_indexing:
  "dKind (fst (indexing_str Is_int d itok index)) = Some (Prim TypeKind_U8) \<and>
   (index = Some ix \<and> (\<forall>s. Prim_of ix = Some s \<longrightarrow> \<not> Is_int s) \<longrightarrow>
      (itok, ''invalid_expr'') \<in> set (snd (indexing_str Is_int d itok index))) \<and>
   Code (Type (ast (fst (evalStrSelect IsIntegerType strv selectv errtok p)))) = xRune \<and>
   lvalue (fst (evalStrSelect IsIntegerType strv selectv errtok p)) \<and>
   (\<not> typeIsSingle (Type (ast selectv)) \<or> \<not> IsIntegerType (Code (Type (ast selectv))) \<longrightarrow>
      (errtok, ''notint_string_select'')
        \<in> set (Logs (snd (evalStrSelect IsIntegerType strv selectv errtok p))))"
proof (intro conjI impI)
  show "dKind (fst (indexing_str Is_int d itok index)) = Some (Prim TypeKind_U8)"
    by (simp add: indexing_str_def Let_def split: option.splits)
next
  assume a: "index = Some ix \<and> (\<forall>s. Prim_of ix = Some s \<longrightarrow> \<not> Is_int s)"
  then have "check_data_for_integer_indexing Is_int ix = ''invalid_expr''"
    by (auto simp: check_data_for_integer_indexing_def split: option.splits)
  then show "(itok, ''invalid_expr'') \<in> set (snd (indexing_str Is_int d itok index))"
    using a by (simp add: indexing_str_def Let_def check_integer_indexing_by_data_def)
next
  show "Code (Type (ast (fst (evalStrSelect IsIntegerType strv selectv errtok p)))) = xRune"
    by (simp add: evalStrSelect_def Let_def)
next
  show "lvalue (fst (evalStrSelect IsIntegerType strv selectv errtok p))"
    by (simp add: evalStrSelect_def Let_def)
next
  assume "\<not> typeIsSingle (Type (ast selectv)) \<or> \<not> IsIntegerType (Code (Type (ast selectv)))"
  then show "(errtok, ''notint_string_select'')
        \<in> set (Logs (snd (evalStrSelect IsIntegerType strv selectv errtok p)))"
    by (auto simp: evalStrSelect_def Let_def pusherrtok_def)
qed

theorem string_indexing_witness:
  "dKind (fst (indexing_str Is_int_x (lit_str ''\"ab\"'') tok0 (Some (lit_float ''1.5''))))
     = Some (Prim TypeKind_U8) \<and>
   (tok0, ''invalid_expr'')
     \<in> set (snd (indexing_str Is_int_x (lit_str ''\"ab\"'') tok0 (Some (lit_float ''1.5'')))) \<and>
   (tok0, ''notint_string_select'')
     \<in> set (Logs (snd (evalStrSelect IsIntegerType_x (valOf ''s'' strType)
          (valOf ''t'' strType) tok0 Parser0)))"
proof -
  have a: "\<forall>s. Prim_of (lit_float ''1.5'') = Some s \<longrightarrow> \<not> Is_int_x s"
    by (simp add: Prim_of_def lit_float_def lit_data_def TypeKind_F64_def Is_int_x_def)
  have b: "\<not> IsIntegerType_x (Code (Type (ast (valOf ''t'' strType))))"
    by (simp add: valOf_def strType_def IsIntegerType_x_def)
  show ?thesis
    using string_indexing[where Is_int = Is_int_x and d = "lit_str ''\"ab\"''" and itok = tok0
        and index = "Some (lit_float ''1.5'')" and ix = "lit_float ''1.5''"
        and IsIntegerType = IsIntegerType_x and strv = "valOf ''s'' strType"
        and selectv = "valOf ''t'' strType" and errtok = tok0 and p = Parser0] a b
    by simp
qed

section \<open>C6: the number of values at a return site\<close>

text \<open>
  C6. In a function with a multi-typed return type (whose tag lists at least one type),
  a \<^verbatim>\<open>ret\<close> with exactly one value gets \<^verbatim>\<open>missing_multi_return\<close> and one with more
  values than types gets \<^verbatim>\<open>overflow_return\<close>; in a function with a single return type a
  \<^verbatim>\<open>ret\<close> with more than one value gets \<^verbatim>\<open>overflow_return\<close>. (\<^verbatim>\<open>checkExprTypes\<close> runs
  for non-void return types only.)
\<close>

theorem return_count_diagnostics:
  "(MultiTyped rt \<and> Tag rt = TypesTag types \<and> length vals = 1 \<longrightarrow>
      (\<exists>logs tasks. checkExprTypes tk rt vals = Inr (logs, tasks) \<and>
         (tk, ''missing_multi_return'') \<in> set logs)) \<and>
   (MultiTyped rt \<and> Tag rt = TypesTag types \<and> types \<noteq> [] \<and> length vals > length types \<longrightarrow>
      (\<exists>logs tasks. checkExprTypes tk rt vals = Inr (logs, tasks) \<and>
         (tk, ''overflow_return'') \<in> set logs)) \<and>
   (\<not> MultiTyped rt \<and> length vals > 1 \<longrightarrow>
      (\<exists>logs tasks. checkExprTypes tk rt vals = Inr (logs, tasks) \<and>
         (tk, ''overflow_return'') \<in> set logs))"
proof (intro conjI impI)
  assume "MultiTyped rt \<and> Tag rt = TypesTag types \<and> length vals = 1"
  then show "\<exists>logs tasks. checkExprTypes tk rt vals = Inr (logs, tasks) \<and>
         (tk, ''missing_multi_return'') \<in> set logs"
    by (simp add: checkExprTypes_def)
next
  assume a: "MultiTyped rt \<and> Tag rt = TypesTag types \<and> types \<noteq> [] \<and> length vals > length types"
  then have "length vals \<noteq> 1" by (cases types) auto
  then show "\<exists>logs tasks. checkExprTypes tk rt vals = Inr (logs, tasks) \<and>
         (tk, ''overflow_return'') \<in> set logs"
    using a by (simp add: checkExprTypes_def)
next
  assume "\<not> MultiTyped rt \<and> length vals > 1"
  then show "\<exists>logs tasks. checkExprTypes tk rt vals = Inr (logs, tasks) \<and>
         (tk, ''overflow_return'') \<in> set logs"
    by (cases vals) (simp_all add: checkExprTypes_def)
qed

text \<open>
  The scenario of the spec, through \<^verbatim>\<open>retChecker.check\<close>: \<^verbatim>\<open>ret 1, 2\<close> gets
  \<^verbatim>\<open>overflow_return\<close> in \<^verbatim>\<open>fn f(): i32\<close> and no diagnostic in \<^verbatim>\<open>fn g(): (i32, i32)\<close>;
  \<^verbatim>\<open>ret 1\<close> in \<^verbatim>\<open>g\<close> gets \<^verbatim>\<open>missing_multi_return\<close>.
\<close>

lemma ret_scenario:
  "map_sum id fst (retChecker_check evI32 retTok0 i32Type [litTok ''1'', commaTok, litTok ''2''])
     = Inr [(retTok0, ''overflow_return'')] \<and>
   map_sum id fst (retChecker_check evI32 retTok0 pairType [litTok ''1'', commaTok, litTok ''2''])
     = Inr [] \<and>
   map_sum id fst (retChecker_check evI32 retTok0 pairType [litTok ''1''])
     = Inr [(retTok0, ''missing_multi_return'')]"
  by (simp add: retChecker_check_def checkepxrs_def pushval_def checkExprTypes_def
      typeIsVoidReturn_def i32Type_def pairType_def litTok_def commaTok_def evI32_def
      Let_def)

theorem return_count_diagnostics_witness:
  "(\<exists>logs tasks. checkExprTypes retTok0 pairType [valOf ''1'' i32Type] = Inr (logs, tasks) \<and>
      (retTok0, ''missing_multi_return'') \<in> set logs) \<and>
   (\<exists>logs tasks. checkExprTypes retTok0 pairType
        [valOf ''1'' i32Type, valOf ''2'' i32Type, valOf ''3'' i32Type] = Inr (logs, tasks) \<and>
      (retTok0, ''overflow_return'') \<in> set logs) \<and>
   (\<exists>logs tasks. checkExprTypes retTok0 i32Type
        [valOf ''1'' i32Type, valOf ''2'' i32Type] = Inr (logs, tasks) \<and>
      (retTok0, ''overflow_return'') \<in> set logs)"
proof -
  have m: "MultiTyped pairType" "Tag pairType = TypesTag [i32Type, i32Type]"
    "\<not> MultiTyped i32Type"
    by (simp_all add: pairType_def i32Type_def)
  show ?thesis
    using return_count_diagnostics[where rt = pairType and types = "[i32Type, i32Type]"
        and vals = "[valOf ''1'' i32Type]" and tk = retTok0]
      return_count_diagnostics[where rt = pairType and types = "[i32Type, i32Type]"
        and vals = "[valOf ''1'' i32Type, valOf ''2'' i32Type, valOf ''3'' i32Type]"
        and tk = retTok0]
      return_count_diagnostics[where rt = i32Type and types = "[]"
        and vals = "[valOf ''1'' i32Type, valOf ''2'' i32Type]" and tk = retTok0]
      m
    by simp
qed

section \<open>C8: constant values and lvalues\<close>

text \<open>
  C8, as the spec states it, fails for \<^verbatim>\<open>valueEvaluator.id\<close>: the identifier of the
  constant variable \<^verbatim>\<open>x\<close> evaluates to a value that is both constant and an lvalue.
\<close>

theorem id_constant_lvalue_counterexample:
  "constant (fst (fst (id_eval [] FuncId (nameTok ''x'') (Parser0\<lparr>BlockVars := [constX]\<rparr>)))) \<and>
   lvalue (fst (fst (id_eval [] FuncId (nameTok ''x'') (Parser0\<lparr>BlockVars := [constX]\<rparr>))))"
  by (simp add: id_eval_def varById_def Parser0_def constX_def nameTok_def)

text \<open>
  C8 (amended). In sema/eval.go, the data of every literal and of every identifier
  (variable, function, enum, struct) satisfies constant implies not lvalue, the data of
  a constant variable is not an lvalue, and \<^verbatim>\<open>indexing_str\<close> keeps the invariant. In
  parser.go, \<^verbatim>\<open>id\<close> marks the value of every variable an lvalue and copies the
  variable's constness beside it.
\<close>

theorem constant_not_lvalue:
  "data_inv lit_nil \<and> data_inv (lit_str l) \<and> data_inv (lit_bool l) \<and> data_inv (lit_rune l) \<and>
   data_inv (lit_float l) \<and>
   (lit_int ik uk l = Inr d \<longrightarrow> data_inv d) \<and>
   (fst (eval_var acc v etok) = Some d \<longrightarrow> data_inv d \<and> (sv_Constant v \<longrightarrow> \<not> Lvalue d)) \<and>
   (fst (eval_fn acc pub tk nm etok) = Some d \<longrightarrow> data_inv d) \<and>
   (fst (eval_enum acc pub tk nm etok) = Some d \<longrightarrow> data_inv d) \<and>
   (fst (eval_struct acc pub tk nm etok) = Some d \<longrightarrow> data_inv d) \<and>
   (data_inv d \<longrightarrow> data_inv (fst (indexing_str Is_int d itok index))) \<and>
   (varById p (Kind itok) = Some var \<longrightarrow>
      lvalue (fst (fst (id_eval builtins dts itok p))) \<and>
      constant (fst (fst (id_eval builtins dts itok p))) = VarConst var)"
proof -
  have lit: "\<And>k. data_inv (lit_data k)" by (simp add: data_inv_def lit_data_def)
  have 1: "data_inv lit_nil" "data_inv (lit_str l)" "data_inv (lit_bool l)"
    "data_inv (lit_rune l)" "data_inv (lit_float l)"
    by (simp_all add: lit lit_nil_def lit_str_def lit_bool_def lit_rune_def lit_float_def)
  have 2: "lit_int ik uk l = Inr d \<longrightarrow> data_inv d"
    by (auto simp: lit_int_def lit split: sum.splits)
  have 3: "fst (eval_var acc v etok) = Some d \<longrightarrow> data_inv d \<and> (sv_Constant v \<longrightarrow> \<not> Lvalue d)"
    by (auto simp: eval_var_def data_inv_def split: if_splits)
  have 4: "fst (eval_fn acc pub tk nm etok) = Some d \<longrightarrow> data_inv d"
    "fst (eval_enum acc pub tk nm etok) = Some d \<longrightarrow> data_inv d"
    "fst (eval_struct acc pub tk nm etok) = Some d \<longrightarrow> data_inv d"
    by (auto simp: eval_fn_def eval_enum_def eval_struct_def data_inv_def split: if_splits)
  have 5: "data_inv d \<longrightarrow> data_inv (fst (indexing_str Is_int d itok index))"
    by (auto simp: indexing_str_def data_inv_def Let_def split: option.splits)
  have 6: "varById p (Kind itok) = Some var \<longrightarrow>
      lvalue (fst (fst (id_eval builtins dts itok p))) \<and>
      constant (fst (fst (id_eval builtins dts itok p))) = VarConst var"
    by (simp add: id_eval_def)
  from 1 2 3 4 5 6 show ?thesis by blast
qed

theorem constant_not_lvalue_witness:
  "data_inv (lit_str ''\"a\"'') \<and>
   \<not> Lvalue (the (fst (eval_var (\<lambda>pub t. True)
        \<lparr>sv_Ident = ''x'', sv_Token = tok0, sv_Public = True, sv_Constant = True,
         sv_Mutable = False, sv_Kind = Some (Prim TypeKind_I32)\<rparr> tok0))) \<and>
   lvalue (fst (fst (id_eval [] FuncId (nameTok ''x'') (Parser0\<lparr>BlockVars := [constX]\<rparr>))))"
proof -
  let ?v = "\<lparr>sv_Ident = ''x'', sv_Token = tok0, sv_Public = True, sv_Constant = True,
         sv_Mutable = False, sv_Kind = Some (Prim TypeKind_I32)\<rparr>"
  let ?d = "the (fst (eval_var (\<lambda>pub t. True) ?v tok0))"
  have a: "fst (eval_var (\<lambda>pub t. True) ?v tok0) = Some ?d"
    by (simp add: eval_var_def)
  have b: "varById (Parser0\<lparr>BlockVars := [constX]\<rparr>) (Kind (nameTok ''x'')) = Some constX"
    by (simp add: varById_def Parser0_def constX_def nameTok_def)
  show ?thesis
    using constant_not_lvalue[where l = "''\"a\"''" and acc = "\<lambda>pub t. True" and v = ?v
        and etok = tok0 and d = ?d and p = "Parser0\<lparr>BlockVars := [constX]\<rparr>"
        and itok = "nameTok ''x''" and var = constX and builtins = "[]" and dts = FuncId] a b
    by simp
qed

section \<open>C10: the iteration counter across an iteration statement\<close>

lemma pusherrtok_iterCount: "iterCount (pusherrtok tk key p) = iterCount p"
  by (simp add: pusherrtok_def)

text \<open>Every function of the walk returns the counter as it found it.\<close>

lemma iterCount_preserved:
  "iterCount (evalExpr e p) = iterCount p"
  "iterCount (checkAnonFuncs fs p) = iterCount p"
  "iterCount (checkFunc f p) = iterCount p"
  "iterCount (evalExprs es p) = iterCount p"
  "iterCount (checkRets ss p) = iterCount p"
  "iterCount (checkIterExpr prof block p) = iterCount p"
  "iterCount (checkStatement s p) = iterCount p"
  "iterCount (checkBlock_from chain ss' p) = iterCount p"
proof (induction e p and fs p and f p and es p and ss p and prof block p and s p
    and chain ss' p
    rule: evalExpr_checkAnonFuncs_checkFunc_evalExprs_checkRets_checkIterExpr_checkStatement_checkBlock_from.induct)
  case (8 s ss p)
  then show ?case by (cases s) simp_all
next
  case (9 prof block p)
  then show ?case by (cases prof) (simp_all add: Let_def)
next
  case (23 chain s ss p)
  then show ?case by (cases s) (simp_all split: if_splits)
qed (simp_all add: checkBreakStatement_def checkContinueStatement_def pusherrtok_iterCount)

text \<open>
  C10. For every iteration statement (any profile, any block) and every parser state,
  \<^verbatim>\<open>iterCount\<close> after \<^verbatim>\<open>checkIterExpr\<close> equals its value before the call, and the same
  holds for \<^verbatim>\<open>checkBlock\<close> on any block; \<^verbatim>\<open>checkBreakStatement\<close> and
  \<^verbatim>\<open>checkContinueStatement\<close> push their diagnostic exactly when the counter is 0.
\<close>

theorem checkIterExpr_preserves_iterCount:
  "iterCount (checkIterExpr prof block p) = iterCount p \<and>
   iterCount (checkBlock b p) = iterCount p \<and>
   Logs (checkBreakStatement tk p) =
     (if iterCount p = 0 then Logs p @ [(tk, ''break_at_outiter'')] else Logs p) \<and>
   Logs (checkContinueStatement tk p) =
     (if iterCount p = 0 then Logs p @ [(tk, ''continue_at_outiter'')] else Logs p)"
proof (intro conjI)
  show "iterCount (checkIterExpr prof block p) = iterCount p"
    by (rule iterCount_preserved(6))
  show "iterCount (checkBlock b p) = iterCount p"
    unfolding checkBlock_def by (rule iterCount_preserved(8))
  show "Logs (checkBreakStatement tk p) =
     (if iterCount p = 0 then Logs p @ [(tk, ''break_at_outiter'')] else Logs p)"
    by (simp add: checkBreakStatement_def pusherrtok_def)
  show "Logs (checkContinueStatement tk p) =
     (if iterCount p = 0 then Logs p @ [(tk, ''continue_at_outiter'')] else Logs p)"
    by (simp add: checkContinueStatement_def pusherrtok_def)
qed

text \<open>
  In \<^verbatim>\<open>iter { break }\<close> followed by \<^verbatim>\<open>break\<close>, checked from a fresh parser, the first
  \<^verbatim>\<open>break\<close> is accepted and the second, met after the iteration with the counter back
  at 0, is refused.
\<close>

lemma loop_then_break_logs:
  "Logs (checkBlock loop_then_break Parser0) = [(breakTok 2, ''break_at_outiter'')]"
  by (simp add: checkBlock_def loop_then_break_def Parser0_def checkBreakStatement_def
      pusherrtok_def Let_def)

theorem checkIterExpr_preserves_iterCount_witness:
  "iterCount (checkIterExpr (WhileProfile (Expr [])) [Break (breakTok 1)] Parser0) = 0 \<and>
   iterCount (checkBlock loop_then_break Parser0) = 0 \<and>
   Logs (checkBreakStatement (breakTok 2) Parser0) = [(breakTok 2, ''break_at_outiter'')]"
  using checkIterExpr_preserves_iterCount[where prof = "WhileProfile (Expr [])"
      and block = "[Break (breakTok 1)]" and p = Parser0 and b = loop_then_break
      and tk = "breakTok 2"]
  by (simp add: Parser0_def)

section \<open>C5: type resolution is idempotent\<close>

lemma bindO_Done: "bindO m f = Done y \<longleftrightarrow> (\<exists>x. m = Done x \<and> f x = Done y)"
  by (cases m) (simp_all add: bindO_def)

lemma traverse_Done: "traverse f xs = Done ys \<longleftrightarrow> list_all2 (\<lambda>x y. f x = Done y) xs ys"
proof (induction xs arbitrary: ys)
  case Nil
  show ?case by auto
next
  case (Cons x xs)
  show ?case by (cases ys) (auto simp: bindO_Done Cons.IH)
qed

lemma mono_recD: "mono_rec r1 r2 \<Longrightarrow> r1 dt err = Done r \<Longrightarrow> r2 dt err = Done r"
  unfolding mono_rec_def by blast

lemma idem_recD:
  "idem_rec r1 \<Longrightarrow> r1 dt err = Done (r, ok, lg) \<Longrightarrow> \<exists>lg'. r1 r err = Done (r, ok, lg')"
  unfolding idem_rec_def by blast

lemma readyParams_simps [simp]:
  "readyParams [] rs = []"
  "readyParams ps [] = []"
  "readyParams (x # ps) (y # rs) = setParamType x (fst y) # readyParams ps rs"
  by (simp_all add: readyParams_def)

text \<open>More fuel does not change what a call returns.\<close>

lemma readyType_body_mono:
  assumes m: "mono_rec r1 r2" and d: "readyType_body dts p r1 dt err = Done r"
  shows "readyType_body dts p r2 dt err = Done r"
proof -
  have t: "\<And>ps rs. traverse (\<lambda>param. r1 (ParamType param) err) ps = Done rs \<Longrightarrow>
      traverse (\<lambda>param. r2 (ParamType param) err) ps = Done rs"
    unfolding traverse_Done
    by (erule list_all2_mono) (rule mono_recD[OF m])
  show ?thesis
  proof (cases "Value dt = []")
    case True
    then show ?thesis using d by (simp add: readyType_body_def)
  next
    case v: False
    show ?thesis
    proof (cases "Code dt = xName")
      case True
      then show ?thesis using d v
        by (auto simp: readyType_body_def split: option.splits if_splits
            intro: mono_recD[OF m])
    next
      case n: False
      show ?thesis
      proof (cases "Code dt = xFunc")
        case True
        then obtain f where f: "Tag dt = FuncTag f"
          using d v n by (cases "Tag dt") (auto simp: readyType_body_def)
        from d v n True f obtain rs rr where
          rs: "traverse (\<lambda>param. r1 (ParamType param) err) (Params f) = Done rs"
          and rr: "r1 (RetType f) err = Done rr"
          and r: "r = (let f' = Func (FuncId f)
                              (map (\<lambda>(param, r). setParamType param (fst r)) (zip (Params f) rs))
                              (RetType f)
                   in (DataType (Token dt) xFunc (dts f') (MultiTyped dt) (FuncTag f'), True,
                            concat (map (\<lambda>r. snd (snd r)) rs) @ snd (snd rr)))"
          by (auto simp: readyType_body_def bindO_Done Let_def)
        have "r2 (RetType f) err = Done rr" using rr by (rule mono_recD[OF m])
        then show ?thesis using t[OF rs] r v n True f
          by (simp add: readyType_body_def bindO_def Let_def)
      next
        case False
        then show ?thesis using d v n by (simp add: readyType_body_def)
      qed
    qed
  qed
qed

lemma readyType_mono: "mono_rec (readyType dts p n) (readyType dts p (Suc n))"
proof (induction n)
  case 0
  show ?case unfolding mono_rec_def by simp
next
  case (Suc n)
  show ?case
    unfolding mono_rec_def
  proof (intro allI impI)
    fix dt err r
    assume "readyType dts p (Suc n) dt err = Done r"
    then have "readyType_body dts p (readyType dts p n) dt err = Done r" by simp
    from readyType_body_mono[OF Suc.IH this]
    show "readyType dts p (Suc (Suc n)) dt err = Done r" by simp
  qed
qed

text \<open>The parameters a function type comes back with are resolved already.\<close>

lemma idem_params:
  assumes i: "idem_rec r1"
    and l: "list_all2 (\<lambda>param y. r1 (ParamType param) err = Done y) ps rs"
  shows "\<exists>rs'. list_all2 (\<lambda>param y. r1 (ParamType param) err = Done y) (readyParams ps rs) rs' \<and>
           readyParams (readyParams ps rs) rs' = readyParams ps rs"
  using l
proof (induction rule: list_all2_induct)
  case Nil
  show ?case by simp
next
  case (Cons x xs y ys)
  obtain a ok lg where y: "y = (a, ok, lg)" by (cases y) auto
  from idem_recD[OF i] Cons.hyps(1) y obtain lg' where
    a: "r1 a err = Done (a, ok, lg')" by blast
  from Cons.IH obtain rs' where
    rs': "list_all2 (\<lambda>param y. r1 (ParamType param) err = Done y) (readyParams xs ys) rs'"
      "readyParams (readyParams xs ys) rs' = readyParams xs ys" by blast
  show ?case
    apply (rule exI[of _ "(a, ok, lg') # rs'"])
    using a rs' y by (simp add: setParamType_def)
qed

lemma readyType_body_idem:
  assumes i: "idem_rec r1" and m: "mono_rec r1 (readyType_body dts p r1)"
    and d: "readyType_body dts p r1 dt err = Done (r, ok, lg)"
  shows "\<exists>lg'. readyType_body dts p r1 r err = Done (r, ok, lg')"
proof (cases "Value dt = []")
  case True
  then show ?thesis using d by (auto simp: readyType_body_def)
next
  case v: False
  show ?thesis
  proof (cases "Code dt = xName")
    case True
    show ?thesis
    proof (cases "typeById p (Kind (Token dt))")
      case None
      then show ?thesis using d v True by (auto simp: readyType_body_def)
    next
      case (Some t)
      with d v True have
        "r1 (setValue (AliasType t)
              (take (length (Value dt) - length (Kind (Token dt))) (Value dt)
               @ Value (AliasType t))) err = Done (r, ok, lg)"
        by (auto simp: readyType_body_def split: if_splits)
      from idem_recD[OF i this] obtain lg' where "r1 r err = Done (r, ok, lg')" by blast
      from mono_recD[OF m this] show ?thesis by blast
    qed
  next
    case n: False
    show ?thesis
    proof (cases "Code dt = xFunc")
      case True
      then obtain f where f: "Tag dt = FuncTag f"
        using d v n by (cases "Tag dt") (auto simp: readyType_body_def)
      from d v n True f obtain rs rr where
        rs: "traverse (\<lambda>param. r1 (ParamType param) err) (Params f) = Done rs"
        and rr: "r1 (RetType f) err = Done rr"
        and r: "r = DataType (Token dt) xFunc
                  (dts (Func (FuncId f) (readyParams (Params f) rs) (RetType f)))
                  (MultiTyped dt)
                  (FuncTag (Func (FuncId f) (readyParams (Params f) rs) (RetType f)))"
        and ok: "ok = True"
        by (auto simp: readyType_body_def bindO_Done Let_def readyParams_def)
      from idem_params[OF i rs[unfolded traverse_Done]] obtain rs' where
        rs': "traverse (\<lambda>param. r1 (ParamType param) err) (readyParams (Params f) rs) = Done rs'"
          "readyParams (readyParams (Params f) rs) rs' = readyParams (Params f) rs"
        unfolding traverse_Done by blast
      show ?thesis
      proof (cases "Value r = []")
        case True
        then show ?thesis using ok by (simp add: readyType_body_def)
      next
        case False
        then show ?thesis using r ok rs' rr
          by (simp add: readyType_body_def bindO_def Let_def readyParams_def[symmetric])
      qed
    next
      case False
      then show ?thesis using d v n by (auto simp: readyType_body_def)
    qed
  qed
qed

lemma readyType_idem_rec: "idem_rec (readyType dts p n)"
proof (induction n)
  case 0
  show ?case unfolding idem_rec_def by simp
next
  case (Suc n)
  show ?case
    unfolding idem_rec_def
  proof (intro allI impI)
    fix dt err r ok lg
    assume "readyType dts p (Suc n) dt err = Done (r, ok, lg)"
    then have "readyType_body dts p (readyType dts p n) dt err = Done (r, ok, lg)" by simp
    from readyType_body_idem[OF Suc.IH _ this] readyType_mono[of dts p n]
    show "\<exists>lg'. readyType dts p (Suc n) r err = Done (r, ok, lg')" by simp
  qed
qed

text \<open>\<^verbatim>\<open>readyType\<close> of types.go is \<^verbatim>\<open>readyType\<close> of parser.go without the diagnostics.\<close>

lemma mapO_simps [simp]:
  "mapO g OutOfFuel = OutOfFuel" "mapO g (Panicked e) = Panicked e" "mapO g (Done x) = Done (g x)"
  by (simp_all add: mapO_def bindO_def)

lemma bindO_simps [simp]:
  "bindO OutOfFuel f = OutOfFuel" "bindO (Panicked e) f = Panicked e" "bindO (Done x) f = f x"
  by (simp_all add: bindO_def)

lemma bindO_mapO: "bindO (mapO g m) f = bindO m (\<lambda>x. f (g x))"
  by (cases m) simp_all

lemma mapO_bindO: "mapO g (bindO m f) = bindO m (\<lambda>x. mapO g (f x))"
  by (cases m) simp_all

lemma traverse_mapO: "traverse (\<lambda>x. mapO g (f x)) xs = mapO (map g) (traverse f xs)"
proof (induction xs)
  case Nil
  show ?case by simp
next
  case (Cons x xs)
  show ?case
    by (cases "f x"; cases "traverse f xs") (simp_all add: Cons.IH)
qed

lemma readyParams_strip:
  "map (\<lambda>(param, r). setParamType param (fst r)) (zip ps (map (\<lambda>r. (fst r, fst (snd r))) rs))
   = map (\<lambda>(param, r). setParamType param (fst r)) (zip ps rs)"
  by (induction ps rs rule: list_induct2') simp_all

lemma readyTypeAST_readyType:
  "readyTypeAST dts p n dt = mapO (\<lambda>r. (fst r, fst (snd r))) (readyType dts p n dt False)"
proof (induction n arbitrary: dt)
  case 0
  show ?case by simp
next
  case (Suc n)
  let ?g = "\<lambda>r::ready. (fst r, fst (snd r))"
  have rec: "readyTypeAST dts p n = (\<lambda>dt. mapO ?g (readyType dts p n dt False))"
    using Suc.IH by blast
  show ?case
  proof (cases "Code dt = xFunc \<and> Value dt \<noteq> [] \<and> (\<exists>f. Tag dt = FuncTag f)")
    case True
    then obtain f where f: "Tag dt = FuncTag f" by blast
    show ?thesis
      using True f
      apply (simp add: readyTypeAST_body_def readyType_body_def rec traverse_mapO
          bindO_mapO mapO_bindO Let_def readyParams_strip)
      done
  next
    case False
    then show ?thesis
      by (cases "Tag dt")
         (auto simp: readyTypeAST_body_def readyType_body_def rec split: option.splits)
  qed
qed

text \<open>
  C5. If \<^verbatim>\<open>readyType\<close> resolves \<open>t\<close> (returns \<^verbatim>\<open>ok = true\<close> within the fuel \<open>n\<close>), then
  it resolves its result within the same fuel, to the same type: both for parser.go
  (whatever \<^verbatim>\<open>err\<close> is; the diagnostics pushed may differ) and for types.go.
\<close>

theorem readyType_idempotent:
  "(readyType dts p n t err = Done (r, True, lg) \<longrightarrow>
      (\<exists>lg'. readyType dts p n r err = Done (r, True, lg'))) \<and>
   (readyTypeAST dts p n t = Done (r, True) \<longrightarrow> readyTypeAST dts p n r = Done (r, True))"
proof (intro conjI impI)
  assume "readyType dts p n t err = Done (r, True, lg)"
  then show "\<exists>lg'. readyType dts p n r err = Done (r, True, lg')"
    by (rule idem_recD[OF readyType_idem_rec])
next
  assume "readyTypeAST dts p n t = Done (r, True)"
  then obtain lg where "readyType dts p n t False = Done (r, True, lg)"
    unfolding readyTypeAST_readyType
    by (cases "readyType dts p n t False") auto
  from idem_recD[OF readyType_idem_rec this]
  show "readyTypeAST dts p n r = Done (r, True)"
    unfolding readyTypeAST_readyType by auto
qed

lemma readyType_ptrA:
  "readyType FuncId (Parser0\<lparr>Types := [aliasA]\<rparr>) 2 ptrA True = Done (ptrI32, True, [])"
  "readyTypeAST FuncId (Parser0\<lparr>Types := [aliasA]\<rparr>) 2 ptrA = Done (ptrI32, True)"
  by (simp_all add: numeral_2_eq_2 readyType_body_def readyTypeAST_body_def typeById_def
      Parser0_def aliasA_def ptrA_def ptrI32_def i32Type_def nameTok_def setValue_def)

theorem readyType_idempotent_witness:
  "(\<exists>lg'. readyType FuncId (Parser0\<lparr>Types := [aliasA]\<rparr>) 2 ptrI32 True
            = Done (ptrI32, True, lg')) \<and>
   readyTypeAST FuncId (Parser0\<lparr>Types := [aliasA]\<rparr>) 2 ptrI32 = Done (ptrI32, True)"
  using readyType_idempotent[where dts = FuncId and p = "Parser0\<lparr>Types := [aliasA]\<rparr>"
      and n = 2 and t = ptrA and err = True and r = ptrI32 and lg = "[]"]
    readyType_ptrA
  by simp

end
